theory Spec2Isabelle
  imports Complex_Main
begin

section \<open>Numbers\<close>

text \<open>
  A JavaScript \<open>number\<close> is modelled as a \<^typ>\<open>real\<close>; \<open>NaN\<close> and the infinities are outside
  the model. An optional number (\<open>number | undefined\<close>, \<open>number | null\<close>) is a
  \<^typ>\<open>real option\<close>. The functions modelled here read an optional parameter through
  \<open>x || d\<close>, which takes the default \<open>d\<close> when \<open>x\<close> is \<open>undefined\<close>, \<open>NaN\<close> or \<open>0\<close>, or
  through its truthiness; \<open>NaN\<close> is therefore represented by \<open>None\<close>.

  Double-precision arithmetic rounds the exact result of every operation and of every decimal
  literal. The price functions take that rounding as a parameter \<open>rnd\<close>; exact arithmetic is
  \<open>rnd = (\<lambda>x. x)\<close>. \<open>Math.ceil\<close> and \<open>Math.round\<close> return integers and are exact.
\<close>

definition orDefault :: "real option \<Rightarrow> real \<Rightarrow> real" where
  "orDefault x d = (case x of None \<Rightarrow> d | Some v \<Rightarrow> if v = 0 then d else v)"

definition truthyNumber :: "real option \<Rightarrow> bool" where
  "truthyNumber x = (case x of None \<Rightarrow> False | Some v \<Rightarrow> v \<noteq> 0)"

definition Math_ceil :: "real \<Rightarrow> real" where
  "Math_ceil x = of_int \<lceil>x\<rceil>"

definition Math_round :: "real \<Rightarrow> real" where
  "Math_round x = of_int \<lfloor>x + 1 / 2\<rfloor>"

section \<open>Pricing engine\<close>

text \<open>
  The optional boolean fields of \<open>PricingParams\<close> are read only for their truthiness, so an
  unset flag is \<open>False\<close>.
\<close>

record PricingParams =
  limit :: "real option"
  all :: bool
  includeReplies :: bool
  includeParents :: bool
  includeReactions :: bool

record FreeTierConfig =
  maxLimit :: real
  allowReplies :: bool
  allowParents :: bool
  allowAll :: bool

definition FREE_TIER :: FreeTierConfig where
  "FREE_TIER = \<lparr>maxLimit = 10, allowReplies = False, allowParents = False, allowAll = False\<rparr>"

record PricingConfig =
  perApiCall :: real
  castsPerPage :: real
  fetchAllDefaultPages :: real
  fetchAllBuffer :: real
  parentRatioWithReplies :: real
  parentRatioWithoutReplies :: real
  repliesDataMultiplier :: real
  reactionsDataMultiplier :: real

definition PRICING :: "(real \<Rightarrow> real) \<Rightarrow> PricingConfig" where
  "PRICING rnd =
     \<lparr>perApiCall = rnd (1 / 1000),
      castsPerPage = 150,
      fetchAllDefaultPages = 50,
      fetchAllBuffer = 5,
      parentRatioWithReplies = rnd (6 / 10),
      parentRatioWithoutReplies = rnd (1 / 10),
      repliesDataMultiplier = rnd (125 / 100),
      reactionsDataMultiplier = rnd (11 / 10)\<rparr>"

definition isFreeTier :: "PricingParams \<Rightarrow> bool" where
  "isFreeTier params =
     (let lim = orDefault (limit params) 50
      in if lim > maxLimit FREE_TIER then False
         else if all params then False
         else if includeReplies params then False
         else if includeParents params then False
         else True)"

text \<open>
  \<open>calculateDynamicPrice\<close> below the free-tier test: the value of \<open>rounded\<close>.
\<close>

definition calculateDynamicPrice_rounded :: "(real \<Rightarrow> real) \<Rightarrow> PricingParams \<Rightarrow> real \<Rightarrow> real" where
  "calculateDynamicPrice_rounded rnd params basePrice =
     (let requestedLimit =
            (if all params
             then rnd (fetchAllDefaultPages (PRICING rnd) * castsPerPage (PRICING rnd))
             else orDefault (limit params) 50);
          castPages = Math_ceil (rnd (requestedLimit / castsPerPage (PRICING rnd)));
          apiCalls1 =
            (if all params then rnd (castPages + fetchAllBuffer (PRICING rnd)) else castPages);
          apiCalls2 =
            (if includeParents params
             then (let parentRatio =
                         (if includeReplies params
                          then parentRatioWithReplies (PRICING rnd)
                          else parentRatioWithoutReplies (PRICING rnd));
                       estimatedParentCalls = Math_ceil (rnd (requestedLimit * parentRatio))
                   in rnd (apiCalls1 + estimatedParentCalls))
             else apiCalls1);
          cost0 = rnd (apiCalls2 * perApiCall (PRICING rnd));
          cost1 =
            (if includeReplies params
             then rnd (cost0 * repliesDataMultiplier (PRICING rnd)) else cost0);
          cost2 =
            (if includeReactions params
             then rnd (cost1 * reactionsDataMultiplier (PRICING rnd)) else cost1);
          cost3 = max cost2 basePrice;
          rounded = rnd (Math_round (rnd (cost3 * 1000000)) / 1000000)
      in rounded)"

text \<open>
  The template literal \<open>`$${rounded}`\<close> renders a number with the runtime's number-to-string
  conversion, the parameter \<open>numberToString\<close>.
\<close>

definition calculateDynamicPrice ::
  "(real \<Rightarrow> real) \<Rightarrow> (real \<Rightarrow> string) \<Rightarrow> PricingParams \<Rightarrow> real \<Rightarrow> string" where
  "calculateDynamicPrice rnd numberToString params basePrice =
     (if isFreeTier params then ''$0''
      else ''$'' @ numberToString (calculateDynamicPrice_rounded rnd params basePrice))"

text \<open>The number that the string returned by \<open>calculateDynamicPrice\<close> renders.\<close>

definition calculateDynamicPrice_amount :: "(real \<Rightarrow> real) \<Rightarrow> PricingParams \<Rightarrow> real \<Rightarrow> real" where
  "calculateDynamicPrice_amount rnd params basePrice =
     (if isFreeTier params then 0 else calculateDynamicPrice_rounded rnd params basePrice)"

section \<open>Rate limiter\<close>

text \<open>
  The state of the class \<open>RateLimiter\<close>. Timestamps are the integer milliseconds of
  \<open>Date.now()\<close>; \<open>endpointRequests\<close> is the \<open>Map\<close> from endpoint names to timestamp arrays.
\<close>

record RateLimiter =
  endpointRequests :: "string \<Rightarrow> int list option"
  globalRequests :: "int list"

definition ENDPOINT_LIMIT :: nat where
  "ENDPOINT_LIMIT = 250"

definition GLOBAL_LIMIT :: nat where
  "GLOBAL_LIMIT = 450"

definition WINDOW_MS :: int where
  "WINDOW_MS = 60000"

definition newRateLimiter :: RateLimiter where
  "newRateLimiter = \<lparr>endpointRequests = Map.empty, globalRequests = []\<rparr>"

text \<open>\<open>cleanOldRequests\<close> reads the clock itself; the reading is the argument \<open>now\<close>.\<close>

definition cleanOldRequests :: "int \<Rightarrow> int list \<Rightarrow> int list" where
  "cleanOldRequests now requests = filter (\<lambda>timestamp. now - timestamp < WINDOW_MS) requests"

text \<open>\<open>this.endpointRequests.get(endpoint) || []\<close>\<close>

definition requestsOf :: "RateLimiter \<Rightarrow> string \<Rightarrow> int list" where
  "requestsOf rl endpoint = (case endpointRequests rl endpoint of None \<Rightarrow> [] | Some reqs \<Rightarrow> reqs)"

text \<open>
  One pass through the body of \<open>waitForSlot\<close> reads the clock three times: at entry, and in
  each of the two calls of \<open>cleanOldRequests\<close>.
\<close>

record Clock =
  atEntry :: int
  atCleanGlobal :: int
  atCleanEndpoint :: int

text \<open>
  A pass either records the request, or suspends for some milliseconds and then calls
  \<open>waitForSlot\<close> again. There is no \<open>await\<close> inside a pass, so passes of concurrent calls do
  not overlap: the limiter's history is a sequence of passes.
\<close>

datatype SlotResult = Recorded | Suspend int

definition waitForSlot_pass :: "string \<Rightarrow> Clock \<Rightarrow> RateLimiter \<Rightarrow> SlotResult \<times> RateLimiter" where
  "waitForSlot_pass endpoint clock rl =
     (let now = atEntry clock;
          globalReqs = cleanOldRequests (atCleanGlobal clock) (globalRequests rl);
          endpointReqs = cleanOldRequests (atCleanEndpoint clock) (requestsOf rl endpoint);
          rl1 = rl\<lparr>globalRequests := globalReqs,
                    endpointRequests := (endpointRequests rl)(endpoint \<mapsto> endpointReqs)\<rparr>;
          globalCount = length globalReqs;
          endpointCount = length endpointReqs
      in if globalCount \<ge> GLOBAL_LIMIT \<or> endpointCount \<ge> ENDPOINT_LIMIT
         then (let relevantRequests =
                     (if globalCount \<ge> GLOBAL_LIMIT then globalReqs else endpointReqs)
               in case relevantRequests of
                    [] \<Rightarrow> (Suspend 1000, rl1)
                  | oldestRequest # _ \<Rightarrow>
                      if oldestRequest = 0 then (Suspend 1000, rl1)
                      else (Suspend (WINDOW_MS - (now - oldestRequest) + 100), rl1))
         else (Recorded,
               rl1\<lparr>globalRequests := globalReqs @ [now],
                    endpointRequests :=
                      (endpointRequests rl1)(endpoint \<mapsto> endpointReqs @ [now])\<rparr>))"

text \<open>
  A call of \<open>waitForSlot\<close>, given the clock readings of its successive passes. With no
  reading left the call is still suspended.
\<close>

fun waitForSlot :: "string \<Rightarrow> Clock list \<Rightarrow> RateLimiter \<Rightarrow> bool \<times> RateLimiter" where
  "waitForSlot endpoint [] rl = (False, rl)"
| "waitForSlot endpoint (clock # clocks) rl =
     (case waitForSlot_pass endpoint clock rl of
        (Recorded, rl') \<Rightarrow> (True, rl')
      | (Suspend ms, rl') \<Rightarrow> waitForSlot endpoint clocks rl')"

text \<open>The limiter after a sequence of passes, each with its endpoint and clock readings.\<close>

definition afterPasses :: "(string \<times> Clock) list \<Rightarrow> RateLimiter \<Rightarrow> RateLimiter" where
  "afterPasses passes rl = foldl (\<lambda>s (endpoint, clock). snd (waitForSlot_pass endpoint clock s)) rl passes"

text \<open>The invariant of the limiter: no list is longer than its ceiling.\<close>

definition within_limits :: "RateLimiter \<Rightarrow> bool" where
  "within_limits rl \<longleftrightarrow>
     length (globalRequests rl) \<le> GLOBAL_LIMIT \<and>
     (\<forall>endpoint. length (requestsOf rl endpoint) \<le> ENDPOINT_LIMIT)"


text \<open>
  The timestamps of a history that were recorded for one endpoint; every timestamp of the
  history is also a global one.
\<close>

definition recordedFor :: "string \<Rightarrow> (string \<times> int) list \<Rightarrow> int list" where
  "recordedFor endpoint history = map snd (filter (\<lambda>entry. fst entry = endpoint) history)"







section \<open>Git filter\<close>

datatype GitFileType = File | Dir

record GitFile =
  path :: string
  name :: string
  type :: GitFileType
  size :: "nat option"
  sha :: "string option"
  content :: "string option"

text \<open>
  \<open>picomatch.isMatch(filePath, pattern, { dot: true })\<close> belongs to a library outside the
  repository: it is the parameter \<open>isMatch\<close>, applied to the path and the pattern.
  \<open>Array.prototype.some\<close> is \<^const>\<open>list_ex\<close>.
\<close>

definition matchesPatterns ::
  "(string \<Rightarrow> string \<Rightarrow> bool) \<Rightarrow> string \<Rightarrow> string list option \<Rightarrow> string list option \<Rightarrow> bool" where
  "matchesPatterns isMatch filePath includePatterns excludePatterns =
     (let included =
            (case includePatterns of
               None \<Rightarrow> True
             | Some pats \<Rightarrow>
                 if length pats > 0 then list_ex (\<lambda>pattern. isMatch filePath pattern) pats
                 else True)
      in if \<not> included then False
         else (case excludePatterns of
                 None \<Rightarrow> True
               | Some pats \<Rightarrow>
                   if length pats > 0
                   then (let excluded = list_ex (\<lambda>pattern. isMatch filePath pattern) pats
                         in if excluded then False else True)
                   else True))"

text \<open>\<open>!includePatterns?.length\<close>: the list is absent or empty.\<close>

definition noPatterns :: "string list option \<Rightarrow> bool" where
  "noPatterns pats = (case pats of None \<Rightarrow> True | Some ps \<Rightarrow> length ps = 0)"

definition filterTree ::
  "(string \<Rightarrow> string \<Rightarrow> bool) \<Rightarrow> GitFile list \<Rightarrow> string list option \<Rightarrow> string list option
     \<Rightarrow> GitFile list" where
  "filterTree isMatch tree includePatterns excludePatterns =
     (if noPatterns includePatterns \<and> noPatterns excludePatterns then tree
      else filter (\<lambda>file. matchesPatterns isMatch (path file) includePatterns excludePatterns)
             tree)"

text \<open>
  A small wildcard matcher, used as a concrete \<open>isMatch\<close>: \<open>*\<close> matches any run of characters
  other than \<open>/\<close>, a \<open>*\<close> followed by another \<open>*\<close> also crosses \<open>/\<close>, every other character
  matches itself. The first argument is the text, the second the pattern.
\<close>

fun wildcardMatch :: "string \<Rightarrow> string \<Rightarrow> bool" where
  "wildcardMatch [] [] = True"
| "wildcardMatch (c # cs) [] = False"
| "wildcardMatch [] (p # ps) = (p = CHR ''*'' \<and> wildcardMatch [] ps)"
| "wildcardMatch (c # cs) (p # ps) =
     (if p = CHR ''*''
      then wildcardMatch (c # cs) ps
           \<or> ((c \<noteq> CHR ''/'' \<or> take 1 ps = ''*'') \<and> wildcardMatch cs (p # ps))
      else p = c \<and> wildcardMatch cs ps)"

section \<open>Tree renderer\<close>

text \<open>
  The nested \<open>Record<string, any>\<close> built by \<open>formatHierarchicalTree\<close>: an object is the list of
  its own properties in insertion order, holding objects, booleans (\<open>_isFile\<close>) and numbers or
  \<open>undefined\<close> (\<open>_size\<close>). Properties inherited from \<open>Object.prototype\<close> are not modelled, and
  neither is the rule that integer-like keys are enumerated first.
\<close>

datatype jsval = Undefined | Bool bool | Num nat | Obj "(string \<times> jsval) list"

datatype TypeError = TypeError

fun truthy :: "jsval \<Rightarrow> bool" where
  "truthy Undefined = False"
| "truthy (Bool b) = b"
| "truthy (Num n) = (n \<noteq> 0)"
| "truthy (Obj kvs) = True"

fun getProp :: "jsval \<Rightarrow> string \<Rightarrow> jsval" where
  "getProp (Obj kvs) key = (case map_of kvs key of None \<Rightarrow> Undefined | Some v \<Rightarrow> v)"
| "getProp v key = Undefined"

fun setKey :: "string \<Rightarrow> jsval \<Rightarrow> (string \<times> jsval) list \<Rightarrow> (string \<times> jsval) list" where
  "setKey key v [] = [(key, v)]"
| "setKey key v ((k, w) # kvs) = (if k = key then (k, v) # kvs else (k, w) # setKey key v kvs)"

text \<open>Assigning a property of a primitive throws in strict-mode code.\<close>

fun setProp :: "jsval \<Rightarrow> string \<Rightarrow> jsval \<Rightarrow> TypeError + jsval" where
  "setProp (Obj kvs) key v = Inr (Obj (setKey key v kvs))"
| "setProp w key v = Inl TypeError"

text \<open>\<open>String.prototype.split\<close> with a one-character separator.\<close>

fun split :: "char \<Rightarrow> string \<Rightarrow> string list" where
  "split sep [] = [[]]"
| "split sep (c # cs) =
     (if c = sep then [] # split sep cs
      else (case split sep cs of [] \<Rightarrow> [[c]] | part # parts \<Rightarrow> (c # part) # parts))"

text \<open>
  The inner \<open>for\<close> loop over the parts of one path, from the node \<open>current\<close>: the result is
  \<open>current\<close> after the loop's assignments below it. \<open>leaf\<close> is the object
  \<open>{ _isFile, _size }\<close>.
\<close>

fun insertParts :: "string list \<Rightarrow> jsval \<Rightarrow> jsval \<Rightarrow> TypeError + jsval" where
  "insertParts [] leaf current = Inr current"
| "insertParts (part # rest) leaf current =
     (if part = [] then insertParts rest leaf current
      else if rest = [] then setProp current part leaf
      else (let existing = getProp current part;
                next = (if \<not> truthy existing then Obj [] else existing)
            in case insertParts rest leaf next of
                 Inl e \<Rightarrow> Inl e
               | Inr child \<Rightarrow> setProp current part child))"

definition leafOf :: "GitFile \<Rightarrow> jsval" where
  "leafOf item =
     Obj [(''_isFile'', Bool (type item = File)),
          (''_size'', (case size item of None \<Rightarrow> Undefined | Some n \<Rightarrow> Num n))]"

fun buildTree :: "GitFile list \<Rightarrow> jsval \<Rightarrow> TypeError + jsval" where
  "buildTree [] rootNode = Inr rootNode"
| "buildTree (item # items) rootNode =
     (case insertParts (split CHR ''/'' (path item)) (leafOf item) rootNode of
        Inl e \<Rightarrow> Inl e
      | Inr rootNode' \<Rightarrow> buildTree items rootNode')"

text \<open>
  \<open>Array.prototype.sort\<close> is stable; it is modelled by a stable insertion sort. \<open>cmp a b < 0\<close>
  puts \<open>a\<close> first.
\<close>

fun insertSorted :: "('a \<Rightarrow> 'a \<Rightarrow> int) \<Rightarrow> 'a \<Rightarrow> 'a list \<Rightarrow> 'a list" where
  "insertSorted cmp x [] = [x]"
| "insertSorted cmp x (y # ys) = (if cmp x y \<le> 0 then x # y # ys else y # insertSorted cmp x ys)"

fun sortBy :: "('a \<Rightarrow> 'a \<Rightarrow> int) \<Rightarrow> 'a list \<Rightarrow> 'a list" where
  "sortBy cmp [] = []"
| "sortBy cmp (x # xs) = insertSorted cmp x (sortBy cmp xs)"

text \<open>Decimal rendering of a non-negative integer, and \<open>`${v}`\<close> for the values of the tree.\<close>

fun showNat :: "nat \<Rightarrow> string" where
  "showNat n =
     (if n < 10 then [''0123456789'' ! n]
      else showNat (n div 10) @ [''0123456789'' ! (n mod 10)])"

declare showNat.simps [simp del]

fun toString :: "jsval \<Rightarrow> string" where
  "toString Undefined = ''undefined''"
| "toString (Bool b) = (if b then ''true'' else ''false'')"
| "toString (Num n) = showNat n"
| "toString (Obj kvs) = ''[object Object]''"

text \<open>
  The connectors are the UTF-8 bytes of the box-drawing characters U+2514, U+251C, U+2500
  and U+2502.
\<close>

definition connectorLast :: string where
  "connectorLast =
     [CHR 0xE2, CHR 0x94, CHR 0x94, CHR 0xE2, CHR 0x94, CHR 0x80, CHR 0xE2, CHR 0x94, CHR 0x80] @ '' ''"

definition connectorMiddle :: string where
  "connectorMiddle =
     [CHR 0xE2, CHR 0x94, CHR 0x9C, CHR 0xE2, CHR 0x94, CHR 0x80, CHR 0xE2, CHR 0x94, CHR 0x80] @ '' ''"

definition childPrefixMiddle :: string where
  "childPrefixMiddle = [CHR 0xE2, CHR 0x94, CHR 0x82] @ ''   ''"

definition newline :: string where
  "newline = [CHR 0x0A]"

text \<open>
  The comparator of \<open>renderNode\<close>; \<open>String.prototype.localeCompare\<close> is the parameter
  \<open>localeCompare\<close>.
\<close>

definition compareEntries :: "(string \<Rightarrow> string \<Rightarrow> int) \<Rightarrow> string \<times> jsval \<Rightarrow> string \<times> jsval \<Rightarrow> int" where
  "compareEntries localeCompare x y =
     (let aIsDir = \<not> truthy (getProp (snd x) ''_isFile'');
          bIsDir = \<not> truthy (getProp (snd y) ''_isFile'')
      in if aIsDir \<noteq> bIsDir then (if aIsDir then - 1 else 1)
         else localeCompare (fst x) (fst y))"

text \<open>
  \<open>renderNode\<close>. Each entry carries the rendering of its own subtree as a function of the
  prefix, so that the recursion follows the structure of the node.
\<close>

fun renderNode :: "(string \<Rightarrow> string \<Rightarrow> int) \<Rightarrow> jsval \<Rightarrow> string \<Rightarrow> string" where
  "renderNode localeCompare (Obj kvs) prefix =
     (let entries =
            filter (\<lambda>(k, v, sub). take 1 k \<noteq> ''_'')
              (map (\<lambda>(k, v). (k, v, \<lambda>p. renderNode localeCompare v p)) kvs);
          sorted =
            sortBy (\<lambda>(a, va, suba) (b, vb, subb). compareEntries localeCompare (a, va) (b, vb))
              entries
      in concat
           (map (\<lambda>(index, (name, val, sub)).
                   (let isLast = (index = length sorted - 1);
                        connector = (if isLast then connectorLast else connectorMiddle);
                        childPrefix = (if isLast then ''    '' else childPrefixMiddle)
                    in if truthy (getProp val ''_isFile'')
                       then (let sz = (if truthy (getProp val ''_size'')
                                       then '' ('' @ toString (getProp val ''_size'') @ '' bytes)''
                                       else [])
                             in prefix @ connector @ name @ sz @ newline)
                       else prefix @ connector @ name @ ''/'' @ newline
                            @ sub (prefix @ childPrefix)))
              (zip [0..<length sorted] sorted)))"
| "renderNode localeCompare v prefix = []"

definition formatHierarchicalTree ::
  "(string \<Rightarrow> string \<Rightarrow> int) \<Rightarrow> GitFile list \<Rightarrow> TypeError + string" where
  "formatHierarchicalTree localeCompare tree =
     (case buildTree tree (Obj []) of
        Inl e \<Rightarrow> Inl e
      | Inr rootNode \<Rightarrow> Inr (renderNode localeCompare rootNode []))"

section \<open>Git content fetch\<close>

text \<open>An upstream call throws, answers with a status that is not ok, or answers ok.\<close>

datatype 'a Response = Throws | NotOk | Ok 'a

record GitQueryParams =
  url :: string
  branch :: "string option"
  includeContent :: bool
  includeTree :: bool
  maxFileSize :: "real option"
  includePatterns :: "string list option"
  excludePatterns :: "string list option"

definition textExtensions :: "string list" where
  "textExtensions =
     [''.md'', ''.txt'', ''.js'', ''.ts'', ''.jsx'', ''.tsx'', ''.py'', ''.go'', ''.rs'', ''.java'',
      ''.c'', ''.cpp'', ''.h'', ''.css'', ''.html'', ''.json'', ''.yaml'', ''.yml'', ''.toml'',
      ''.xml'', ''.sh'', ''.bash'', ''.zsh'', ''.mjs'', ''.cjs'', ''.mts'', ''.cts'', ''.vue'',
      ''.svelte'', ''.astro'']"

text \<open>\<open>toLowerCase\<close> on the ASCII letters, which is all that a comparison with the extensions sees.\<close>

definition toLowerChar :: "char \<Rightarrow> char" where
  "toLowerChar c =
     (let n = (of_char c :: nat) in if 65 \<le> n \<and> n \<le> 90 then char_of (n + 32) else c)"

definition toLowerCase :: "string \<Rightarrow> string" where
  "toLowerCase s = map toLowerChar s"

definition endsWith :: "string \<Rightarrow> string \<Rightarrow> bool" where
  "endsWith s suffix =
     (length suffix \<le> length s \<and> drop (length s - length suffix) s = suffix)"

text \<open>
  The tree of \<open>fetchGitHubRepo\<close>: fetched when the tree or the content is requested, filtered by
  the patterns, and left undefined when the call fails.
\<close>

definition fetchGitHubRepo_tree ::
  "(string \<Rightarrow> string \<Rightarrow> bool) \<Rightarrow> GitQueryParams \<Rightarrow> GitFile list Response \<Rightarrow> GitFile list option" where
  "fetchGitHubRepo_tree isMatch params treeResponse =
     (if includeTree params \<or> includeContent params
      then (case treeResponse of
              Ok rawTree \<Rightarrow>
                Some (filterTree isMatch rawTree (includePatterns params) (excludePatterns params))
            | _ \<Rightarrow> None)
      else None)"

definition filesToFetch :: "real \<Rightarrow> GitFile list \<Rightarrow> GitFile list" where
  "filesToFetch maxSize tree =
     take 50
       (filter (\<lambda>f. list_ex (\<lambda>ext. endsWith (toLowerCase (path f)) ext) textExtensions)
          (filter (\<lambda>f. type f = File
                        \<and> real (case size f of None \<Rightarrow> 0 | Some n \<Rightarrow> n) \<le> maxSize) tree))"

text \<open>The \<open>for\<close> loop over \<open>filesToFetch\<close>; \<open>fetchContent\<close> is the upstream call for one file.\<close>

fun fetchContents :: "(GitFile \<Rightarrow> string Response) \<Rightarrow> GitFile list \<Rightarrow> GitFile list" where
  "fetchContents fetchContent [] = []"
| "fetchContents fetchContent (file # rest) =
     (case fetchContent file of
        Ok body \<Rightarrow> file\<lparr>content := Some body\<rparr> # fetchContents fetchContent rest
      | _ \<Rightarrow> fetchContents fetchContent rest)"

text \<open>The field \<open>files\<close> of the response of \<open>fetchGitHubRepo\<close>.\<close>

definition fetchGitHubRepo_files ::
  "GitQueryParams \<Rightarrow> GitFile list option \<Rightarrow> (GitFile \<Rightarrow> string Response) \<Rightarrow> GitFile list" where
  "fetchGitHubRepo_files params tree fetchContent =
     (case tree of
        Some t \<Rightarrow>
          if includeContent params
          then (let maxSize = orDefault (maxFileSize params) 100000
                in fetchContents fetchContent (filesToFetch maxSize t))
          else []
      | None \<Rightarrow> [])"

text \<open>The patterns of an optional pattern list.\<close>

definition patternsOf :: "string list option \<Rightarrow> string list" where
  "patternsOf pats = (case pats of None \<Rightarrow> [] | Some ps \<Rightarrow> ps)"

text \<open>Inputs of the examples below.\<close>

definition exampleDirA :: GitFile where
  "exampleDirA =
     \<lparr>path = ''a'', name = ''a'', type = Dir, size = None, sha = None, content = None\<rparr>"

definition exampleFileAB :: GitFile where
  "exampleFileAB =
     \<lparr>path = ''a/b.txt'', name = ''b.txt'', type = File, size = Some 12, sha = None,
      content = None\<rparr>"

definition exampleReadme :: GitFile where
  "exampleReadme =
     \<lparr>path = ''README.md'', name = ''README.md'', type = File, size = Some 5, sha = None,
      content = None\<rparr>"

definition exampleGitParams :: GitQueryParams where
  "exampleGitParams =
     \<lparr>url = ''https://github.com/o/r'', branch = None, includeContent = True,
      includeTree = False, maxFileSize = None, includePatterns = None,
      excludePatterns = None\<rparr>"

section \<open>Plain objects as dictionaries\<close>

text \<open>
  The adapters collect the parents they have looked up in an object literal,
  \<open>const parentMap: Record<string, T> = {}\<close>. Such an object holds the properties stored in
  it and inherits the properties of \<open>Object.prototype\<close>; in a runtime that has added none
  to it, their names are these.
\<close>

definition objectPrototypeKeys :: "string list" where
  "objectPrototypeKeys =
     [''constructor'', ''__defineGetter__'', ''__defineSetter__'', ''hasOwnProperty'',
      ''__lookupGetter__'', ''__lookupSetter__'', ''isPrototypeOf'', ''propertyIsEnumerable'',
      ''toString'', ''valueOf'', ''__proto__'', ''toLocaleString'']"

text \<open>
  The object: its own properties, and the stored object that has replaced its prototype, if
  one has.
\<close>

record 'v PlainObject =
  ownProperties :: "string \<Rightarrow> 'v option"
  replacedPrototype :: "'v option"

definition emptyObject :: "'v PlainObject" where
  "emptyObject = \<lparr>ownProperties = Map.empty, replacedPrototype = None\<rparr>"

text \<open>
  \<open>obj[key] = v\<close> for an object \<open>v\<close>. The key \<open>__proto__\<close> is the accessor of
  \<open>Object.prototype\<close>: the assignment makes \<open>v\<close> the prototype of \<open>obj\<close> and stores no
  property. Every other key becomes an own property.
\<close>

definition assignProperty :: "'v PlainObject \<Rightarrow> string \<Rightarrow> 'v \<Rightarrow> 'v PlainObject" where
  "assignProperty obj key v =
     (if key = ''__proto__'' then obj\<lparr>replacedPrototype := Some v\<rparr>
      else obj\<lparr>ownProperties := (ownProperties obj)(key \<mapsto> v)\<rparr>)"

text \<open>
  What \<open>obj[key]\<close> can give when it is truthy: a stored object (an own property, or the
  prototype read through \<open>__proto__\<close>), or the value of the property \<open>key\<close> that \<open>obj\<close>
  inherits, from the stored object that replaced its prototype if there is one and from
  \<open>Object.prototype\<close>.
\<close>

datatype 'v PropertyValue = Stored 'v | Inherited "'v option" string

text \<open>
  \<open>obj[key]\<close>, with \<open>None\<close> for a falsy value. \<open>ownFields v key\<close> is \<open>None\<close> when the stored
  object \<open>v\<close> has no property \<open>key\<close> of its own, and otherwise tells whether the value of that
  property is truthy. The properties of \<open>Object.prototype\<close> are functions, and \<open>__proto__\<close>
  reads the prototype.
\<close>

definition readProperty ::
  "('v \<Rightarrow> string \<Rightarrow> bool option) \<Rightarrow> 'v PlainObject \<Rightarrow> string \<Rightarrow> 'v PropertyValue option" where
  "readProperty ownFields obj key =
     (case ownProperties obj key of
        Some v \<Rightarrow> Some (Stored v)
      | None \<Rightarrow>
          if key = ''__proto__''
          then (case replacedPrototype obj of
                  Some p \<Rightarrow> Some (Stored p)
                | None \<Rightarrow> Some (Inherited None key))
          else (case replacedPrototype obj of
                  Some p \<Rightarrow>
                    (case ownFields p key of
                       Some isTruthy \<Rightarrow>
                         if isTruthy then Some (Inherited (Some p) key) else None
                     | None \<Rightarrow>
                         if key \<in> set objectPrototypeKeys then Some (Inherited (Some p) key)
                         else None)
                | None \<Rightarrow>
                    if key \<in> set objectPrototypeKeys then Some (Inherited None key)
                    else None))"

section \<open>Farcaster adapter\<close>

text \<open>
  The fields of an upstream cast that \<open>transformCast\<close> reads: \<open>c.author.fid\<close> is
  \<open>raw_author_fid\<close>, \<open>c.reactions?.likes_count\<close> is \<open>raw_likes_count\<close>, and an embed is its
  \<open>url\<close>.
\<close>

record RawCast =
  raw_hash :: string
  raw_thread_hash :: string
  raw_parent_hash :: "string option"
  raw_author_fid :: nat
  raw_author_username :: "string option"
  raw_text :: string
  raw_timestamp :: string
  raw_embeds :: "string option list option"
  raw_likes_count :: "nat option"
  raw_recasts_count :: "nat option"

text \<open>
  \<open>parentCast\<close> holds what \<open>parentMap[c.parentHash]\<close> gave: the type \<open>FarcasterCast\<close> of the
  source is not checked when the program runs.
\<close>

datatype FarcasterCast =
  FarcasterCast
    (hash: string) (threadHash: string) (parentHash: "string option")
    (authorFid: nat) (authorUsername: string) (castText: string) (timestamp: string)
    (attachments: "string list") (embeds: "string option list")
    (likes: nat) (recasts: nat) (parentCast: "FarcasterCast PropertyValue option")

text \<open>The truthiness of an optional string: \<open>undefined\<close>, \<open>null\<close> and \<open>""\<close> are falsy.\<close>

definition truthyString :: "string option \<Rightarrow> bool" where
  "truthyString s = (case s of None \<Rightarrow> False | Some v \<Rightarrow> v \<noteq> [])"

definition transformCast :: "RawCast \<Rightarrow> FarcasterCast" where
  "transformCast c =
     FarcasterCast
       (raw_hash c)
       (raw_thread_hash c)
       (if truthyString (raw_parent_hash c) then raw_parent_hash c else None)
       (raw_author_fid c)
       (case raw_author_username c of None \<Rightarrow> [] | Some u \<Rightarrow> u)
       (raw_text c)
       (raw_timestamp c)
       []
       (case raw_embeds c of None \<Rightarrow> [] | Some es \<Rightarrow> es)
       (case raw_likes_count c of None \<Rightarrow> 0 | Some n \<Rightarrow> n)
       (case raw_recasts_count c of None \<Rightarrow> 0 | Some n \<Rightarrow> n)
       None"

text \<open>\<open>c.parentCast = p\<close>\<close>

definition setParentCast :: "FarcasterCast \<Rightarrow> FarcasterCast PropertyValue \<Rightarrow> FarcasterCast" where
  "setParentCast c p =
     FarcasterCast (hash c) (threadHash c) (parentHash c) (authorFid c) (authorUsername c)
       (castText c) (timestamp c) (attachments c) (embeds c) (likes c) (recasts c) (Some p)"

text \<open>
  The properties of a cast object and the truthiness of their values: a string is truthy
  unless it is empty, an object or an array always. \<open>parentCast\<close> is a property once it has
  been assigned.
\<close>

definition castFields :: "FarcasterCast \<Rightarrow> string \<Rightarrow> bool option" where
  "castFields c key =
     (if key = ''hash'' then Some (hash c \<noteq> [])
      else if key = ''threadHash'' then Some (threadHash c \<noteq> [])
      else if key = ''parentHash'' then Some (truthyString (parentHash c))
      else if key = ''author'' then Some True
      else if key = ''text'' then Some (castText c \<noteq> [])
      else if key = ''timestamp'' then Some (timestamp c \<noteq> [])
      else if key = ''attachments'' then Some True
      else if key = ''embeds'' then Some True
      else if key = ''reactions'' then Some True
      else if key = ''parentCast'' then map_option (\<lambda>p. True) (parentCast c)
      else None)"

text \<open>
  An awaited call of the upstream client either rejects or resolves. \<open>fetchCastsForUser\<close>
  resolves to a page: the casts and \<open>res.next?.cursor\<close>.
\<close>

datatype 'a Outcome = Rejected | Resolved 'a

datatype FetchError = UpstreamFailure

record CastsPage =
  casts :: "RawCast list option"
  next_cursor :: "string option"

datatype SortOrder = Newest | Oldest

record FarcasterQueryParams = PricingParams +
  sortOrder :: "SortOrder option"

text \<open>
  The \<open>do ... while\<close> loop of \<open>fetchCasts\<close>, from the accumulated casts and the cursor. The
  upstream call is a function of the cursor, the other arguments being the same in every
  iteration. \<open>waitForSlot\<close> only delays the call. The loop ends when the upstream rejects (the
  error leaves \<open>fetchCasts\<close>) or when the condition fails; if neither happens the result is
  \<open>None\<close>.
\<close>

partial_function (option) fetchCasts_loop ::
  "(string option \<Rightarrow> CastsPage Outcome) \<Rightarrow> bool \<Rightarrow> bool \<Rightarrow> real \<Rightarrow> FarcasterCast list
     \<Rightarrow> string option \<Rightarrow> (FetchError + FarcasterCast list) option" where
  "fetchCasts_loop fetchCastsForUser inclReplies fetchAll lmt allCasts cursor =
     (case fetchCastsForUser cursor of
        Rejected \<Rightarrow> Some (Inl UpstreamFailure)
      | Resolved res \<Rightarrow>
          (let filtered =
                 map transformCast
                   (filter (\<lambda>c. inclReplies \<or> \<not> truthyString (raw_parent_hash c))
                      (case casts res of None \<Rightarrow> [] | Some cs \<Rightarrow> cs));
               allCasts' = allCasts @ filtered;
               cursor' = (if truthyString (next_cursor res) then next_cursor res else None)
           in if truthyString cursor' \<and> (fetchAll \<or> real (length allCasts') < lmt)
              then fetchCasts_loop fetchCastsForUser inclReplies fetchAll lmt allCasts' cursor'
              else Some (Inr allCasts')))"

text \<open>\<open>[...new Set(xs)]\<close>: the first occurrences, in order.\<close>

fun dedup :: "'a list \<Rightarrow> 'a list" where
  "dedup [] = []"
| "dedup (x # xs) = x # filter (\<lambda>y. y \<noteq> x) (dedup xs)"

definition parentHashesOf :: "FarcasterCast list \<Rightarrow> string list" where
  "parentHashesOf allCasts =
     dedup (map the (filter truthyString (map parentHash allCasts)))"

text \<open>
  One lookup of a parent, with its \<open>try ... catch\<close>: a rejected call and an answer without a
  cast both give \<open>null\<close>.
\<close>

definition lookupParent ::
  "(string \<Rightarrow> RawCast option Outcome) \<Rightarrow> string \<Rightarrow> string \<times> FarcasterCast option" where
  "lookupParent lookupCastByHashOrUrl h =
     (case lookupCastByHashOrUrl h of
        Rejected \<Rightarrow> (h, None)
      | Resolved None \<Rightarrow> (h, None)
      | Resolved (Some c) \<Rightarrow> (h, Some (transformCast c)))"

text \<open>\<open>results.forEach\<close>: the casts found are stored in \<open>parentMap\<close>.\<close>

fun storeResults ::
  "(string \<times> FarcasterCast option) list \<Rightarrow> FarcasterCast PlainObject
     \<Rightarrow> FarcasterCast PlainObject" where
  "storeResults [] parentMap = parentMap"
| "storeResults ((h, found) # results) parentMap =
     storeResults results
       (case found of None \<Rightarrow> parentMap | Some c \<Rightarrow> assignProperty parentMap h c)"

definition batchSize :: nat where
  "batchSize = 25"

text \<open>The \<open>for\<close> loop over the batches, from the hashes not yet looked up.\<close>

function lookupBatches ::
  "(string \<Rightarrow> RawCast option Outcome) \<Rightarrow> string list \<Rightarrow> FarcasterCast PlainObject
     \<Rightarrow> FarcasterCast PlainObject" where
  "lookupBatches lookupCastByHashOrUrl hashes parentMap =
     (if hashes = [] then parentMap
      else (let batch = take batchSize hashes;
                results = map (lookupParent lookupCastByHashOrUrl) batch
            in lookupBatches lookupCastByHashOrUrl (drop batchSize hashes)
                 (storeResults results parentMap)))"
  by pat_completeness auto
termination
  by (relation "measure (\<lambda>(l, hashes, m). length hashes)") (auto simp: batchSize_def)

declare lookupBatches.simps [simp del]

text \<open>
  \<open>allCasts.forEach\<close>: a cast with a parent hash for which \<open>parentMap[c.parentHash]\<close> is
  truthy gets that value as its parent.
\<close>

definition attachParent :: "FarcasterCast PlainObject \<Rightarrow> FarcasterCast \<Rightarrow> FarcasterCast" where
  "attachParent parentMap c =
     (case parentHash c of
        None \<Rightarrow> c
      | Some h \<Rightarrow>
          if h = [] then c
          else (case readProperty castFields parentMap h of
                  None \<Rightarrow> c
                | Some p \<Rightarrow> setParentCast c p))"

definition resolveParents ::
  "(string \<Rightarrow> RawCast option Outcome) \<Rightarrow> FarcasterCast list \<Rightarrow> FarcasterCast list" where
  "resolveParents lookupCastByHashOrUrl allCasts =
     (let parentHashes = parentHashesOf allCasts;
          parentMap = lookupBatches lookupCastByHashOrUrl parentHashes emptyObject
      in map (attachParent parentMap) allCasts)"

text \<open>
  \<open>xs.slice(0, end)\<close>: the end is truncated to an integer, and a negative end counts from the
  end of the array.
\<close>

definition slice0 :: "'a list \<Rightarrow> real \<Rightarrow> 'a list" where
  "slice0 xs end =
     (let relativeEnd = (if end < 0 then \<lceil>end\<rceil> else \<lfloor>end\<rfloor>)
      in if relativeEnd < 0 then take (nat (max (int (length xs) + relativeEnd) 0)) xs
         else take (nat relativeEnd) xs)"

definition fetchCasts ::
  "(string option \<Rightarrow> CastsPage Outcome) \<Rightarrow> (string \<Rightarrow> RawCast option Outcome)
     \<Rightarrow> FarcasterQueryParams \<Rightarrow> (FetchError + FarcasterCast list) option" where
  "fetchCasts fetchCastsForUser lookupCastByHashOrUrl params =
     (let fetchAll = all params;
          lmt = orDefault (limit params) 50;
          order = (case sortOrder params of None \<Rightarrow> Newest | Some so \<Rightarrow> so)
      in case fetchCasts_loop fetchCastsForUser (includeReplies params) fetchAll lmt [] None of
           None \<Rightarrow> None
         | Some (Inl e) \<Rightarrow> Some (Inl e)
         | Some (Inr allCasts) \<Rightarrow>
             (let sorted = (if order = Oldest then rev allCasts else allCasts);
                  withParents =
                    (if includeParents params
                     then resolveParents lookupCastByHashOrUrl sorted else sorted)
              in Some (Inr (if fetchAll then withParents else slice0 withParents lmt))))"

text \<open>The parent references attached in a list of casts, without repetition.\<close>

definition attachedParents :: "FarcasterCast list \<Rightarrow> string list" where
  "attachedParents cs =
     dedup (map the (filter truthyString
       (map parentHash (filter (\<lambda>c. parentCast c \<noteq> None) cs))))"

text \<open>Inputs of the examples below.\<close>

definition exampleRaw :: "nat \<Rightarrow> string option \<Rightarrow> RawCast" where
  "exampleRaw n parent =
     \<lparr>raw_hash = showNat n, raw_thread_hash = showNat n, raw_parent_hash = parent,
      raw_author_fid = 1, raw_author_username = Some ''alice'', raw_text = ''gm'',
      raw_timestamp = ''2024-01-15T12:00:00Z'', raw_embeds = None, raw_likes_count = None,
      raw_recasts_count = None\<rparr>"

text \<open>An upstream with three pages of 50 casts, numbered from the newest, and then no cursor.\<close>

definition threePages :: "string option \<Rightarrow> CastsPage Outcome" where
  "threePages cursor =
     (if cursor = None
      then Resolved \<lparr>casts = Some (map (\<lambda>n. exampleRaw n None) [0..<50]),
                     next_cursor = Some ''c1''\<rparr>
      else if cursor = Some ''c1''
      then Resolved \<lparr>casts = Some (map (\<lambda>n. exampleRaw n None) [50..<100]),
                     next_cursor = Some ''c2''\<rparr>
      else if cursor = Some ''c2''
      then Resolved \<lparr>casts = Some (map (\<lambda>n. exampleRaw n None) [100..<150]),
                     next_cursor = None\<rparr>
      else Rejected)"

definition exampleParams :: "SortOrder option \<Rightarrow> FarcasterQueryParams" where
  "exampleParams order =
     \<lparr>limit = Some 120, all = False, includeReplies = False, includeParents = False,
      includeReactions = False, sortOrder = order\<rparr>"

text \<open>
  An upstream with one page of four casts, three of them replies to the two parents \<open>p1\<close> and
  \<open>p2\<close>, and a parent lookup that finds \<open>p1\<close> and fails for every other hash.
\<close>

definition repliesPage :: "string option \<Rightarrow> CastsPage Outcome" where
  "repliesPage cursor =
     Resolved \<lparr>casts = Some [exampleRaw 11 (Some ''p1''), exampleRaw 12 (Some ''p2''),
                             exampleRaw 13 None, exampleRaw 14 (Some ''p1'')],
               next_cursor = None\<rparr>"

definition parentLookup :: "string \<Rightarrow> RawCast option Outcome" where
  "parentLookup h = (if h = ''p1'' then Resolved (Some (exampleRaw 100 None)) else Rejected)"

definition repliesParams :: FarcasterQueryParams where
  "repliesParams =
     \<lparr>limit = None, all = False, includeReplies = True, includeParents = True,
      includeReactions = False, sortOrder = None\<rparr>"

text \<open>
  An upstream with one page of two replies, to the parents \<open>p1\<close> and \<open>constructor\<close>.
\<close>

definition constructorPage :: "string option \<Rightarrow> CastsPage Outcome" where
  "constructorPage cursor =
     Resolved \<lparr>casts = Some [exampleRaw 11 (Some ''p1''), exampleRaw 12 (Some ''constructor'')],
               next_cursor = None\<rparr>"

text \<open>The casts of one page that the loop keeps, transformed.\<close>

definition keptCasts :: "bool \<Rightarrow> RawCast list \<Rightarrow> FarcasterCast list" where
  "keptCasts inclReplies page =
     map transformCast (filter (\<lambda>c. inclReplies \<or> \<not> truthyString (raw_parent_hash c)) page)"

text \<open>The 150 casts of \<open>threePages\<close>, transformed, newest first.\<close>

definition exampleFetched :: "FarcasterCast list" where
  "exampleFetched =
     map transformCast
       (map (\<lambda>n. exampleRaw n None) [0..<50] @ map (\<lambda>n. exampleRaw n None) [50..<100]
        @ map (\<lambda>n. exampleRaw n None) [100..<150])"

section \<open>Estimate endpoint and payment gate\<close>

text \<open>
  \<open>calculateDynamicPriceWithCastCount\<close> below the free-tier test: the value of \<open>rounded\<close>.
  \<open>castCount\<close> is a number or \<open>null\<close>.
\<close>

definition calculateDynamicPriceWithCastCount_rounded ::
  "(real \<Rightarrow> real) \<Rightarrow> PricingParams \<Rightarrow> real option \<Rightarrow> real \<Rightarrow> real" where
  "calculateDynamicPriceWithCastCount_rounded rnd params castCount basePrice =
     (let requestedLimit =
            (if all params
             then (case castCount of
                     Some n \<Rightarrow> n
                   | None \<Rightarrow> rnd (fetchAllDefaultPages (PRICING rnd) * castsPerPage (PRICING rnd)))
             else orDefault (limit params) 50);
          castPages = Math_ceil (rnd (requestedLimit / castsPerPage (PRICING rnd)));
          apiCalls1 =
            (if all params then rnd (castPages + fetchAllBuffer (PRICING rnd)) else castPages);
          apiCalls2 =
            (if includeParents params
             then (let parentRatio =
                         (if includeReplies params
                          then parentRatioWithReplies (PRICING rnd)
                          else parentRatioWithoutReplies (PRICING rnd));
                       estimatedParentCalls = Math_ceil (rnd (requestedLimit * parentRatio))
                   in rnd (apiCalls1 + estimatedParentCalls))
             else apiCalls1);
          cost0 = rnd (apiCalls2 * perApiCall (PRICING rnd));
          cost1 =
            (if includeReplies params
             then rnd (cost0 * repliesDataMultiplier (PRICING rnd)) else cost0);
          cost2 =
            (if includeReactions params
             then rnd (cost1 * reactionsDataMultiplier (PRICING rnd)) else cost1);
          cost3 = max cost2 basePrice;
          rounded = rnd (Math_round (rnd (cost3 * 1000000)) / 1000000)
      in rounded)"

definition calculateDynamicPriceWithCastCount ::
  "(real \<Rightarrow> real) \<Rightarrow> (real \<Rightarrow> string) \<Rightarrow> PricingParams \<Rightarrow> real option \<Rightarrow> real \<Rightarrow> string" where
  "calculateDynamicPriceWithCastCount rnd numberToString params castCount basePrice =
     (if isFreeTier params then ''$0''
      else ''$'' @ numberToString
             (calculateDynamicPriceWithCastCount_rounded rnd params castCount basePrice))"

text \<open>
  The two places that price a Farcaster request, from the parsed \<open>PricingParams\<close> on. Both
  read the cast count of an \<open>all\<close> request from the cache (\<open>cached\<close> is the result of
  \<open>getCached\<close>, a number or \<open>null\<close>) and otherwise from the upstream call
  \<open>lookupUserStorageUsage\<close>, whose outcome \<open>storage\<close> is a rejection or the value of
  \<open>storageResponse?.casts?.used\<close>.

  The handler of \<open>/estimate\<close>, for a request that gives a \<open>fid\<close>: a missing count and a
  rejected call both become 0.
\<close>

definition estimate_castCount ::
  "PricingParams \<Rightarrow> real option \<Rightarrow> real option Outcome \<Rightarrow> real option" where
  "estimate_castCount params cached storage =
     (if all params
      then (case cached of
              Some n \<Rightarrow> Some n
            | None \<Rightarrow>
                (case storage of
                   Resolved used \<Rightarrow> Some (case used of None \<Rightarrow> 0 | Some n \<Rightarrow> n)
                 | Rejected \<Rightarrow> Some 0))
      else None)"

definition estimate_price ::
  "(real \<Rightarrow> real) \<Rightarrow> (real \<Rightarrow> string) \<Rightarrow> PricingParams \<Rightarrow> real option \<Rightarrow> real option Outcome
     \<Rightarrow> real \<Rightarrow> string" where
  "estimate_price rnd numberToString params cached storage basePrice =
     (if isFreeTier params then ''$0''
      else calculateDynamicPriceWithCastCount rnd numberToString params
             (estimate_castCount params cached storage) basePrice)"

text \<open>
  The payment middleware of \<open>/\<close>: a free-tier request passes without a price. \<open>userFid\<close> is
  the resolved user id, \<open>None\<close> when there is none; a missing count and a rejected call both
  leave \<open>castCount\<close> at \<open>null\<close>.
\<close>

definition gate_castCount ::
  "PricingParams \<Rightarrow> real option \<Rightarrow> real option \<Rightarrow> real option Outcome \<Rightarrow> real option" where
  "gate_castCount params userFid cached storage =
     (if all params
      then (if truthyNumber userFid
            then (case cached of
                    Some n \<Rightarrow> Some n
                  | None \<Rightarrow> (case storage of Resolved used \<Rightarrow> used | Rejected \<Rightarrow> None))
            else None)
      else None)"

definition gate_price ::
  "(real \<Rightarrow> real) \<Rightarrow> (real \<Rightarrow> string) \<Rightarrow> PricingParams \<Rightarrow> real option \<Rightarrow> real option
     \<Rightarrow> real option Outcome \<Rightarrow> real \<Rightarrow> string option" where
  "gate_price rnd numberToString params userFid cached storage basePrice =
     (if isFreeTier params then None
      else Some (calculateDynamicPriceWithCastCount rnd numberToString params
                   (gate_castCount params userFid cached storage) basePrice))"

text \<open>A request for all casts with no other option.\<close>

definition allCastsParams :: PricingParams where
  "allCastsParams =
     \<lparr>limit = None, all = True, includeReplies = False, includeParents = False,
      includeReactions = False\<rparr>"

section \<open>Bluesky adapter\<close>

text \<open>
  An embed view as \<open>transformBskyEmbed\<close> reads it: its \<open>$type\<close>, and the optional fields
  \<open>images\<close> (each image with \<open>fullsize\<close> and \<open>thumb\<close>), \<open>external\<close> (\<open>uri\<close>, \<open>title\<close>,
  \<open>description\<close>), \<open>record\<close> (its \<open>uri\<close>), \<open>playlist\<close> and \<open>thumbnail\<close>.
\<close>

record RawBskyEmbed =
  embed_type :: string
  embed_images :: "(string option \<times> string option) list option"
  embed_external :: "(string \<times> string option \<times> string option) option"
  embed_record :: "string option option"
  embed_playlist :: "string option"
  embed_thumbnail :: "string option"

datatype BskyEmbedType = Image | External | Record | Video

record BskyEmbed =
  embedType :: BskyEmbedType
  embedUrl :: "string option"
  title :: "string option"
  description :: "string option"

text \<open>\<open>a || b\<close> on optional strings.\<close>

definition orElse :: "string option \<Rightarrow> string option \<Rightarrow> string option" where
  "orElse a b = (if truthyString a then a else b)"

definition transformBskyEmbed :: "RawBskyEmbed option \<Rightarrow> BskyEmbed list" where
  "transformBskyEmbed emb =
     (case emb of
        None \<Rightarrow> []
      | Some e \<Rightarrow>
          (case (if embed_type e = ''app.bsky.embed.images#view'' then embed_images e else None) of
             None \<Rightarrow> []
           | Some imgs \<Rightarrow>
               map (\<lambda>(fullsize, thumb).
                      \<lparr>embedType = Image, embedUrl = orElse fullsize thumb, title = None,
                       description = None\<rparr>) imgs)
          @ (case (if embed_type e = ''app.bsky.embed.external#view'' then embed_external e
                   else None) of
               None \<Rightarrow> []
             | Some (u, t, d) \<Rightarrow>
                 [\<lparr>embedType = External, embedUrl = Some u, title = t, description = d\<rparr>])
          @ (case (if embed_type e = ''app.bsky.embed.record#view'' then embed_record e
                   else None) of
               None \<Rightarrow> []
             | Some u \<Rightarrow>
                 [\<lparr>embedType = Record, embedUrl = u, title = None, description = None\<rparr>])
          @ (if embed_type e = ''app.bsky.embed.video#view''
             then [\<lparr>embedType = Video, embedUrl = orElse (embed_playlist e) (embed_thumbnail e),
                    title = None, description = None\<rparr>]
             else []))"

text \<open>
  The post view of a feed item with its record: \<open>post.record.reply?.parent?.uri\<close> is
  \<open>record_reply_parent\<close>.
\<close>

record RawBskyPost =
  post_uri :: string
  post_cid :: string
  post_author_did :: string
  post_author_handle :: string
  record_text :: "string option"
  record_createdAt :: string
  record_reply_parent :: "string option"
  record_reply_root :: "string option"
  post_embed :: "RawBskyEmbed option"
  post_likeCount :: "nat option"
  post_repostCount :: "nat option"
  post_replyCount :: "nat option"
  post_quoteCount :: "nat option"

text \<open>A feed item: the post, and whether it has a \<open>reason\<close> (it is a repost).\<close>

record BskyFeedItem =
  post :: RawBskyPost
  reason :: bool

datatype BlueskyPost =
  BlueskyPost
    (uri: string) (cid: string) (authorDid: string) (authorHandle: string) (postText: string)
    (createdAt: string) (replyParent: "string option") (replyRoot: "string option")
    (postEmbeds: "BskyEmbed list") (likeCount: nat) (repostCount: nat) (replyCount: nat)
    (quoteCount: nat) (parentPost: "BlueskyPost PropertyValue option")

definition transformBskyPost :: "RawBskyPost \<Rightarrow> BlueskyPost" where
  "transformBskyPost p =
     BlueskyPost
       (post_uri p)
       (post_cid p)
       (post_author_did p)
       (post_author_handle p)
       (case record_text p of None \<Rightarrow> [] | Some t \<Rightarrow> t)
       (record_createdAt p)
       (record_reply_parent p)
       (record_reply_root p)
       (transformBskyEmbed (post_embed p))
       (case post_likeCount p of None \<Rightarrow> 0 | Some n \<Rightarrow> n)
       (case post_repostCount p of None \<Rightarrow> 0 | Some n \<Rightarrow> n)
       (case post_replyCount p of None \<Rightarrow> 0 | Some n \<Rightarrow> n)
       (case post_quoteCount p of None \<Rightarrow> 0 | Some n \<Rightarrow> n)
       None"

definition setParentPost :: "BlueskyPost \<Rightarrow> BlueskyPost PropertyValue \<Rightarrow> BlueskyPost" where
  "setParentPost p parent =
     BlueskyPost (uri p) (cid p) (authorDid p) (authorHandle p) (postText p) (createdAt p)
       (replyParent p) (replyRoot p) (postEmbeds p) (likeCount p) (repostCount p) (replyCount p)
       (quoteCount p) (Some parent)"

text \<open>
  The properties of a post object and the truthiness of their values: a number is truthy
  unless it is 0.
\<close>

definition postFields :: "BlueskyPost \<Rightarrow> string \<Rightarrow> bool option" where
  "postFields p key =
     (if key = ''uri'' then Some (uri p \<noteq> [])
      else if key = ''cid'' then Some (cid p \<noteq> [])
      else if key = ''author'' then Some True
      else if key = ''text'' then Some (postText p \<noteq> [])
      else if key = ''createdAt'' then Some (createdAt p \<noteq> [])
      else if key = ''replyParent'' then Some (truthyString (replyParent p))
      else if key = ''replyRoot'' then Some (truthyString (replyRoot p))
      else if key = ''embeds'' then Some True
      else if key = ''likeCount'' then Some (likeCount p \<noteq> 0)
      else if key = ''repostCount'' then Some (repostCount p \<noteq> 0)
      else if key = ''replyCount'' then Some (replyCount p \<noteq> 0)
      else if key = ''quoteCount'' then Some (quoteCount p \<noteq> 0)
      else if key = ''parentPost'' then map_option (\<lambda>parent. True) (parentPost p)
      else None)"

text \<open>\<open>res.data\<close> of \<open>getAuthorFeed\<close>.\<close>

record BskyFeedPage =
  feed :: "BskyFeedItem list"
  cursor :: "string option"

text \<open>
  The \<open>do ... while\<close> loop of \<open>fetchBskyPosts\<close>. The upstream call is a function of the cursor;
  the actor, the page size and the filter are the same in every iteration.
\<close>

partial_function (option) fetchBskyPosts_loop ::
  "(string option \<Rightarrow> BskyFeedPage Outcome) \<Rightarrow> bool \<Rightarrow> real \<Rightarrow> BlueskyPost list
     \<Rightarrow> string option \<Rightarrow> (FetchError + BlueskyPost list) option" where
  "fetchBskyPosts_loop getAuthorFeed fetchAll lmt allPosts cur =
     (case getAuthorFeed cur of
        Rejected \<Rightarrow> Some (Inl UpstreamFailure)
      | Resolved res \<Rightarrow>
          (let transformed =
                 map (\<lambda>item. transformBskyPost (post item))
                   (filter (\<lambda>item. \<not> reason item) (feed res));
               allPosts' = allPosts @ transformed;
               cur' = cursor res
           in if truthyString cur' \<and> (fetchAll \<or> real (length allPosts') < lmt)
              then fetchBskyPosts_loop getAuthorFeed fetchAll lmt allPosts' cur'
              else Some (Inr allPosts')))"

definition parentUrisOf :: "BlueskyPost list \<Rightarrow> string list" where
  "parentUrisOf allPosts =
     dedup (map the (filter truthyString (map replyParent allPosts)))"

text \<open>
  One lookup of a parent post: \<open>getPostThread\<close> rejects, or resolves to a thread that holds a
  post or does not.
\<close>

definition lookupParentPost ::
  "(string \<Rightarrow> RawBskyPost option Outcome) \<Rightarrow> string \<Rightarrow> string \<times> BlueskyPost option" where
  "lookupParentPost getPostThread u =
     (case getPostThread u of
        Rejected \<Rightarrow> (u, None)
      | Resolved None \<Rightarrow> (u, None)
      | Resolved (Some p) \<Rightarrow> (u, Some (transformBskyPost p)))"

fun storePostResults ::
  "(string \<times> BlueskyPost option) list \<Rightarrow> BlueskyPost PlainObject \<Rightarrow> BlueskyPost PlainObject" where
  "storePostResults [] parentMap = parentMap"
| "storePostResults ((u, found) # results) parentMap =
     storePostResults results
       (case found of None \<Rightarrow> parentMap | Some p \<Rightarrow> assignProperty parentMap u p)"

function lookupPostBatches ::
  "(string \<Rightarrow> RawBskyPost option Outcome) \<Rightarrow> string list \<Rightarrow> BlueskyPost PlainObject
     \<Rightarrow> BlueskyPost PlainObject" where
  "lookupPostBatches getPostThread uris parentMap =
     (if uris = [] then parentMap
      else (let batch = take batchSize uris;
                results = map (lookupParentPost getPostThread) batch
            in lookupPostBatches getPostThread (drop batchSize uris)
                 (storePostResults results parentMap)))"
  by pat_completeness auto
termination
  by (relation "measure (\<lambda>(l, uris, m). length uris)") (auto simp: batchSize_def)

declare lookupPostBatches.simps [simp del]

definition attachParentPost :: "BlueskyPost PlainObject \<Rightarrow> BlueskyPost \<Rightarrow> BlueskyPost" where
  "attachParentPost parentMap p =
     (case replyParent p of
        None \<Rightarrow> p
      | Some u \<Rightarrow>
          if u = [] then p
          else (case readProperty postFields parentMap u of
                  None \<Rightarrow> p
                | Some parent \<Rightarrow> setParentPost p parent))"

definition resolveParentPosts ::
  "(string \<Rightarrow> RawBskyPost option Outcome) \<Rightarrow> BlueskyPost list \<Rightarrow> BlueskyPost list" where
  "resolveParentPosts getPostThread allPosts =
     (let parentUris = parentUrisOf allPosts;
          parentMap = lookupPostBatches getPostThread parentUris emptyObject
      in map (attachParentPost parentMap) allPosts)"

text \<open>
  \<open>fetchBskyPosts\<close> reads the same fields of its \<open>BlueskyQueryParams\<close> as \<open>fetchCasts\<close> of
  its \<open>FarcasterQueryParams\<close>.
\<close>

type_synonym BlueskyQueryParams = FarcasterQueryParams

text \<open>
  \<open>fetchBskyPosts\<close>. With \<open>includeReplies\<close> the upstream is asked for posts with replies;
  \<open>getAuthorFeed\<close> is given the flag and the cursor.
\<close>

definition fetchBskyPosts ::
  "(bool \<Rightarrow> string option \<Rightarrow> BskyFeedPage Outcome) \<Rightarrow> (string \<Rightarrow> RawBskyPost option Outcome)
     \<Rightarrow> BlueskyQueryParams \<Rightarrow> (FetchError + BlueskyPost list) option" where
  "fetchBskyPosts getAuthorFeed getPostThread params =
     (let fetchAll = all params;
          lmt = orDefault (limit params) 50;
          order = (case sortOrder params of None \<Rightarrow> Newest | Some so \<Rightarrow> so)
      in case fetchBskyPosts_loop (getAuthorFeed (includeReplies params)) fetchAll lmt [] None of
           None \<Rightarrow> None
         | Some (Inl e) \<Rightarrow> Some (Inl e)
         | Some (Inr allPosts) \<Rightarrow>
             (let sorted = (if order = Oldest then rev allPosts else allPosts);
                  withParents =
                    (if includeParents params
                     then resolveParentPosts getPostThread sorted else sorted)
              in Some (Inr (if fetchAll then withParents else slice0 withParents lmt))))"

text \<open>An upstream with three pages of 50 posts, numbered from the newest, and then no cursor.\<close>

definition exampleBskyItem :: "nat \<Rightarrow> BskyFeedItem" where
  "exampleBskyItem n =
     \<lparr>post =
        \<lparr>post_uri = ''at://did:plc:alice/app.bsky.feed.post/'' @ showNat n,
         post_cid = showNat n, post_author_did = ''did:plc:alice'',
         post_author_handle = ''alice.bsky.social'', record_text = Some ''gm'',
         record_createdAt = ''2024-01-15T12:00:00Z'', record_reply_parent = None,
         record_reply_root = None, post_embed = None, post_likeCount = None,
         post_repostCount = None, post_replyCount = None, post_quoteCount = None\<rparr>,
      reason = False\<rparr>"

definition threeBskyPages :: "bool \<Rightarrow> string option \<Rightarrow> BskyFeedPage Outcome" where
  "threeBskyPages withReplies cur =
     (if cur = None
      then Resolved \<lparr>feed = map exampleBskyItem [0..<50], cursor = Some ''c1''\<rparr>
      else if cur = Some ''c1''
      then Resolved \<lparr>feed = map exampleBskyItem [50..<100], cursor = Some ''c2''\<rparr>
      else if cur = Some ''c2''
      then Resolved \<lparr>feed = map exampleBskyItem [100..<150], cursor = None\<rparr>
      else Rejected)"

definition noThread :: "string \<Rightarrow> RawBskyPost option Outcome" where
  "noThread u = Rejected"

text \<open>The 150 posts of \<open>threeBskyPages\<close>, transformed, newest first.\<close>

definition exampleBskyFetched :: "BlueskyPost list" where
  "exampleBskyFetched =
     map (\<lambda>item. transformBskyPost (post item))
       (map exampleBskyItem [0..<50] @ map exampleBskyItem [50..<100]
        @ map exampleBskyItem [100..<150])"

section \<open>Free tier\<close>

text \<open>
  C4. A request whose explicit limit is the free-tier maximum 10, with \<open>all\<close>,
  \<open>includeReplies\<close> and \<open>includeParents\<close> unset, is free; the same request with limit 11 is not.
\<close>

theorem isFreeTier_boundary:
  "isFreeTier \<lparr>limit = Some (maxLimit FREE_TIER), all = False, includeReplies = False,
                includeParents = False, includeReactions = r\<rparr>
   \<and> maxLimit FREE_TIER = 10
   \<and> \<not> isFreeTier \<lparr>limit = Some (maxLimit FREE_TIER + 1), all = False, includeReplies = False,
                    includeParents = False, includeReactions = r\<rparr>"
  by (simp add: isFreeTier_def orDefault_def FREE_TIER_def)

text \<open>
  C10 as stated fails at an explicit limit of 0: \<open>params.limit || 50\<close> replaces it by the
  default 50, which is above the free-tier maximum.
\<close>

theorem isFreeTier_zero_limit_counterexample:
  "(0::real) \<le> 10 \<and>
   \<not> isFreeTier \<lparr>limit = Some 0, all = False, includeReplies = False,
                  includeParents = False, includeReactions = True\<rparr>"
  by (simp add: isFreeTier_def orDefault_def FREE_TIER_def)

text \<open>
  C10, amended. A request with an explicit non-zero limit of at most 10 and with \<open>all\<close>,
  \<open>includeReplies\<close> and \<open>includeParents\<close> false is free whatever \<open>includeReactions\<close> is, and
  changing \<open>includeReactions\<close> never changes the result of \<open>isFreeTier\<close>.
\<close>

theorem isFreeTier_ignores_reactions:
  assumes "l \<le> 10" and "l \<noteq> 0"
  shows "isFreeTier \<lparr>limit = Some l, all = False, includeReplies = False,
                     includeParents = False, includeReactions = r\<rparr>
         \<and> isFreeTier (p\<lparr>includeReactions := r\<rparr>) = isFreeTier p"
  using assms by (simp add: isFreeTier_def orDefault_def FREE_TIER_def)

theorem isFreeTier_ignores_reactions_witness:
  "(5::real) \<le> 10 \<and> (5::real) \<noteq> 0
   \<and> isFreeTier \<lparr>limit = Some 5, all = False, includeReplies = False,
                   includeParents = False, includeReactions = True\<rparr>"
  using isFreeTier_ignores_reactions [of 5 True] by simp

section \<open>Monotonicity of the price\<close>

lemma rnd_nonneg: "mono rnd \<Longrightarrow> rnd 0 = 0 \<Longrightarrow> 0 \<le> x \<Longrightarrow> 0 \<le> rnd (x::real)"
  by (metis monoD)

lemma Math_ceil_mono: "x \<le> y \<Longrightarrow> Math_ceil x \<le> Math_ceil y"
  by (simp add: Math_ceil_def ceiling_mono)

lemma Math_ceil_nonneg: "0 \<le> x \<Longrightarrow> 0 \<le> Math_ceil x"
  using Math_ceil_mono [of 0 x] by (simp add: Math_ceil_def)

lemma Math_round_mono: "x \<le> y \<Longrightarrow> Math_round x \<le> Math_round y"
  by (simp add: Math_round_def floor_mono)

lemma Math_round_nonneg: "0 \<le> x \<Longrightarrow> 0 \<le> Math_round x"
  by (simp add: Math_round_def)

lemma PRICING_nonneg:
  assumes "mono rnd" "rnd 0 = 0"
  shows "0 \<le> perApiCall (PRICING rnd)" "0 \<le> parentRatioWithReplies (PRICING rnd)"
    "0 \<le> parentRatioWithoutReplies (PRICING rnd)" "0 \<le> repliesDataMultiplier (PRICING rnd)"
    "0 \<le> reactionsDataMultiplier (PRICING rnd)"
  using assms by (simp_all add: PRICING_def rnd_nonneg)

text \<open>
  Every step of the computation is monotone in the requested limit: the proof follows the
  source's variables \<open>requestedLimit\<close>, \<open>apiCalls\<close> and \<open>cost\<close> in turn.
\<close>

lemma rounded_mono:
  assumes m: "mono rnd" and z: "rnd 0 = 0" and pos: "0 < l1" and le: "l1 \<le> l2"
  shows "calculateDynamicPrice_rounded rnd (p\<lparr>limit := Some l1\<rparr>) b
         \<le> calculateDynamicPrice_rounded rnd (p\<lparr>limit := Some l2\<rparr>) b"
proof -
  note P = PRICING_nonneg [OF m z]
  note R = monoD [OF m]
  define rl where "rl l =
    (if all p then rnd (fetchAllDefaultPages (PRICING rnd) * castsPerPage (PRICING rnd))
     else orDefault (Some l) 50)" for l :: real
  have rl: "rl l1 \<le> rl l2"
    using pos le by (simp add: rl_def orDefault_def)
  define a1 where "a1 l =
    (let castPages = Math_ceil (rnd (rl l / castsPerPage (PRICING rnd)))
     in if all p then rnd (castPages + fetchAllBuffer (PRICING rnd)) else castPages)" for l
  have a1: "a1 l1 \<le> a1 l2"
    unfolding a1_def Let_def using rl
    by (auto intro!: R Math_ceil_mono divide_right_mono simp: PRICING_def)
  define a2 where "a2 l =
    (if includeParents p
     then (let parentRatio = (if includeReplies p then parentRatioWithReplies (PRICING rnd)
                              else parentRatioWithoutReplies (PRICING rnd));
               estimatedParentCalls = Math_ceil (rnd (rl l * parentRatio))
           in rnd (a1 l + estimatedParentCalls))
     else a1 l)" for l
  have a2: "a2 l1 \<le> a2 l2"
    unfolding a2_def Let_def using rl a1 P
    by (auto intro!: R Math_ceil_mono add_mono mult_right_mono)
  define c where "c l =
    (let cost0 = rnd (a2 l * perApiCall (PRICING rnd));
         cost1 = (if includeReplies p
                  then rnd (cost0 * repliesDataMultiplier (PRICING rnd)) else cost0)
     in if includeReactions p
        then rnd (cost1 * reactionsDataMultiplier (PRICING rnd)) else cost1)" for l
  have c: "c l1 \<le> c l2"
    unfolding c_def Let_def using a2 P
    by (auto intro!: R mult_right_mono)
  have eq: "calculateDynamicPrice_rounded rnd (p\<lparr>limit := Some l\<rparr>) b
    = rnd (Math_round (rnd (max (c l) b * 1000000)) / 1000000)" for l
    by (simp add: calculateDynamicPrice_rounded_def c_def a2_def a1_def rl_def Let_def)
  show ?thesis
    unfolding eq using c
    by (auto intro!: R divide_right_mono Math_round_mono mult_right_mono max.mono)
qed

lemma rounded_nonneg:
  assumes m: "mono rnd" and z: "rnd 0 = 0" and pos: "0 < l"
  shows "0 \<le> calculateDynamicPrice_rounded rnd (p\<lparr>limit := Some l\<rparr>) b"
proof -
  note P = PRICING_nonneg [OF m z]
  note R = rnd_nonneg [OF m z]
  define rl where "rl =
    (if all p then rnd (fetchAllDefaultPages (PRICING rnd) * castsPerPage (PRICING rnd))
     else orDefault (Some l) 50)"
  have rl: "0 \<le> rl"
    using pos by (auto intro!: R simp: rl_def orDefault_def PRICING_def)
  define cp where "cp = Math_ceil (rnd (rl / castsPerPage (PRICING rnd)))"
  have cp: "0 \<le> cp"
    unfolding cp_def using rl
    by (intro Math_ceil_nonneg R divide_nonneg_nonneg) (simp_all add: PRICING_def)
  define a1 where "a1 = (if all p then rnd (cp + fetchAllBuffer (PRICING rnd)) else cp)"
  have a1: "0 \<le> a1"
    unfolding a1_def using cp by (auto intro!: R simp: PRICING_def)
  define pr where "pr = (if includeReplies p then parentRatioWithReplies (PRICING rnd)
                         else parentRatioWithoutReplies (PRICING rnd))"
  have pr: "0 \<le> pr"
    unfolding pr_def using P by simp
  have pc: "0 \<le> Math_ceil (rnd (rl * pr))"
    using rl pr by (intro Math_ceil_nonneg R mult_nonneg_nonneg)
  define a2 where "a2 = (if includeParents p then rnd (a1 + Math_ceil (rnd (rl * pr))) else a1)"
  have "0 \<le> rnd (a1 + Math_ceil (rnd (rl * pr)))"
    using a1 pc by (intro R add_nonneg_nonneg)
  then have a2: "0 \<le> a2"
    unfolding a2_def using a1 by simp
  define c0 where "c0 = rnd (a2 * perApiCall (PRICING rnd))"
  have c0: "0 \<le> c0"
    unfolding c0_def using a2 P(1) by (intro R mult_nonneg_nonneg)
  define c1 where "c1 = (if includeReplies p
                         then rnd (c0 * repliesDataMultiplier (PRICING rnd)) else c0)"
  have "0 \<le> rnd (c0 * repliesDataMultiplier (PRICING rnd))"
    using c0 P(4) by (intro R mult_nonneg_nonneg)
  then have c1: "0 \<le> c1"
    unfolding c1_def using c0 by simp
  define c2 where "c2 = (if includeReactions p
                         then rnd (c1 * reactionsDataMultiplier (PRICING rnd)) else c1)"
  have "0 \<le> rnd (c1 * reactionsDataMultiplier (PRICING rnd))"
    using c1 P(5) by (intro R mult_nonneg_nonneg)
  then have c2: "0 \<le> c2"
    unfolding c2_def using c1 by simp
  have c3: "0 \<le> max c2 b * 1000000"
    using c2 by simp
  have "0 \<le> rnd (Math_round (rnd (max c2 b * 1000000)) / 1000000)"
    by (intro R divide_nonneg_nonneg Math_round_nonneg c3) simp
  moreover have "calculateDynamicPrice_rounded rnd (p\<lparr>limit := Some l\<rparr>) b
      = rnd (Math_round (rnd (max c2 b * 1000000)) / 1000000)"
    by (simp add: calculateDynamicPrice_rounded_def Let_def c2_def c1_def c0_def a2_def pr_def
        a1_def cp_def rl_def)
  ultimately show ?thesis
    by simp
qed

lemma isFreeTier_smaller_limit:
  assumes "0 < l1" and "l1 \<le> l2" and "isFreeTier (p\<lparr>limit := Some l2\<rparr>)"
  shows "isFreeTier (p\<lparr>limit := Some l1\<rparr>)"
  using assms by (auto simp: isFreeTier_def orDefault_def Let_def split: if_splits)

text \<open>
  C5. For positive limits \<open>l1 \<le> l2\<close> and all other parameters equal, the price for \<open>l1\<close> is at
  most the price for \<open>l2\<close>; and equal inputs give equal price strings. The rounding of the
  floating-point operations is any monotone function that keeps 0.
\<close>

theorem price_monotone_in_limit:
  assumes "mono rnd" and "rnd 0 = 0" and "0 < l1" and "l1 \<le> l2"
  shows "calculateDynamicPrice_amount rnd (p\<lparr>limit := Some l1\<rparr>) b
           \<le> calculateDynamicPrice_amount rnd (p\<lparr>limit := Some l2\<rparr>) b
         \<and> (p = p' \<and> b = b' \<longrightarrow>
              calculateDynamicPrice rnd ns p b = calculateDynamicPrice rnd ns p' b')"
proof -
  have pos2: "0 < l2"
    using assms(3,4) by simp
  have "calculateDynamicPrice_amount rnd (p\<lparr>limit := Some l1\<rparr>) b
           \<le> calculateDynamicPrice_amount rnd (p\<lparr>limit := Some l2\<rparr>) b"
  proof (cases "isFreeTier (p\<lparr>limit := Some l2\<rparr>)")
    case True
    then have "isFreeTier (p\<lparr>limit := Some l1\<rparr>)"
      using isFreeTier_smaller_limit [OF assms(3,4)] by simp
    with True show ?thesis
      by (simp add: calculateDynamicPrice_amount_def)
  next
    case False
    then show ?thesis
      using rounded_mono [OF assms, of p b] rounded_nonneg [OF assms(1,2) pos2, of p b]
      by (simp add: calculateDynamicPrice_amount_def)
  qed
  then show ?thesis
    by simp
qed

theorem price_monotone_in_limit_witness:
  "mono (\<lambda>x::real. x) \<and> (\<lambda>x::real. x) 0 = 0 \<and> (0::real) < 10 \<and> (10::real) \<le> 200
   \<and> calculateDynamicPrice_amount (\<lambda>x. x)
        (\<lparr>limit = None, all = False, includeReplies = True, includeParents = True,
          includeReactions = True\<rparr>\<lparr>limit := Some 10\<rparr>) (1 / 1000)
      \<le> calculateDynamicPrice_amount (\<lambda>x. x)
        (\<lparr>limit = None, all = False, includeReplies = True, includeParents = True,
          includeReactions = True\<rparr>\<lparr>limit := Some 200\<rparr>) (1 / 1000)"
proof -
  have m: "mono (\<lambda>x::real. x)"
    by (simp add: mono_def)
  show ?thesis
    using m price_monotone_in_limit [OF m, of 10 200
        "\<lparr>limit = None, all = False, includeReplies = True, includeParents = True,
          includeReactions = True\<rparr>" "1 / 1000"]
    by simp
qed

section \<open>Rate limiter bounds\<close>

lemma length_cleanOldRequests: "length (cleanOldRequests now reqs) \<le> length reqs"
  by (simp add: cleanOldRequests_def)

lemma within_limits_new: "within_limits newRateLimiter"
  by (simp add: within_limits_def newRateLimiter_def requestsOf_def)

lemma waitForSlot_pass_state:
  fixes rl endpoint clock
  defines "g \<equiv> cleanOldRequests (atCleanGlobal clock) (globalRequests rl)"
    and "e \<equiv> cleanOldRequests (atCleanEndpoint clock) (requestsOf rl endpoint)"
  shows "snd (waitForSlot_pass endpoint clock rl) =
           (if length g \<ge> GLOBAL_LIMIT \<or> length e \<ge> ENDPOINT_LIMIT
            then rl\<lparr>globalRequests := g,
                    endpointRequests := (endpointRequests rl)(endpoint \<mapsto> e)\<rparr>
            else rl\<lparr>globalRequests := g @ [atEntry clock],
                    endpointRequests := (endpointRequests rl)(endpoint \<mapsto> e @ [atEntry clock])\<rparr>)"
  by (simp add: waitForSlot_pass_def Let_def g_def e_def split: list.splits)

lemma within_limits_pass:
  assumes "within_limits rl"
  shows "within_limits (snd (waitForSlot_pass endpoint clock rl))"
proof -
  define g where "g = cleanOldRequests (atCleanGlobal clock) (globalRequests rl)"
  define e where "e = cleanOldRequests (atCleanEndpoint clock) (requestsOf rl endpoint)"
  have g: "length g \<le> GLOBAL_LIMIT"
    using assms length_cleanOldRequests [of "atCleanGlobal clock" "globalRequests rl"]
    by (simp add: within_limits_def g_def)
  have e: "length e \<le> ENDPOINT_LIMIT"
    using assms length_cleanOldRequests [of "atCleanEndpoint clock" "requestsOf rl endpoint"]
    by (simp add: within_limits_def e_def le_trans)
  have o: "length (requestsOf rl ep) \<le> ENDPOINT_LIMIT" for ep
    using assms by (simp add: within_limits_def)
  show ?thesis
  proof (cases "length g \<ge> GLOBAL_LIMIT \<or> length e \<ge> ENDPOINT_LIMIT")
    case True
    then have "snd (waitForSlot_pass endpoint clock rl) =
        rl\<lparr>globalRequests := g, endpointRequests := (endpointRequests rl)(endpoint \<mapsto> e)\<rparr>"
      unfolding waitForSlot_pass_state g_def e_def by simp
    then show ?thesis
      using g e o by (simp add: within_limits_def requestsOf_def)
  next
    case False
    then have "snd (waitForSlot_pass endpoint clock rl) =
        rl\<lparr>globalRequests := g @ [atEntry clock],
           endpointRequests := (endpointRequests rl)(endpoint \<mapsto> e @ [atEntry clock])\<rparr>"
      unfolding waitForSlot_pass_state g_def e_def by simp
    then show ?thesis
      using False o by (simp add: within_limits_def requestsOf_def)
  qed
qed

lemma within_limits_afterPasses:
  "within_limits rl \<Longrightarrow> within_limits (afterPasses passes rl)"
proof (induction passes arbitrary: rl)
  case Nil
  then show ?case by (simp add: afterPasses_def)
next
  case (Cons p ps)
  obtain endpoint clock where p: "p = (endpoint, clock)"
    by (cases p)
  have "within_limits (snd (waitForSlot_pass endpoint clock rl))"
    using Cons.prems by (rule within_limits_pass)
  then have "within_limits (afterPasses ps (snd (waitForSlot_pass endpoint clock rl)))"
    by (rule Cons.IH)
  then show ?case
    by (simp add: afterPasses_def p)
qed

text \<open>The passes of one call are passes on its endpoint.\<close>

lemma waitForSlot_afterPasses:
  "\<exists>k. snd (waitForSlot endpoint clocks rl) = afterPasses (map (Pair endpoint) (take k clocks)) rl"
proof (induction clocks arbitrary: rl)
  case Nil
  then show ?case by (simp add: afterPasses_def)
next
  case (Cons c cs)
  obtain r rl' where pass: "waitForSlot_pass endpoint c rl = (r, rl')"
    by (cases "waitForSlot_pass endpoint c rl")
  show ?case
  proof (cases r)
    case Recorded
    with pass have "snd (waitForSlot endpoint (c # cs) rl)
        = afterPasses (map (Pair endpoint) (take 1 (c # cs))) rl"
      by (simp add: afterPasses_def)
    then show ?thesis by blast
  next
    case (Suspend ms)
    from Cons.IH [of rl'] obtain k where
      "snd (waitForSlot endpoint cs rl') = afterPasses (map (Pair endpoint) (take k cs)) rl'"
      by blast
    with pass Suspend have "snd (waitForSlot endpoint (c # cs) rl)
        = afterPasses (map (Pair endpoint) (take (Suc k) (c # cs))) rl"
      by (simp add: afterPasses_def)
    then show ?thesis by blast
  qed
qed

text \<open>The arrays that the limiter holds are never longer than the ceilings.\<close>

lemma stored_requests_within_limits:
  "length (requestsOf (afterPasses passes newRateLimiter) endpoint) \<le> ENDPOINT_LIMIT
   \<and> length (globalRequests (afterPasses passes newRateLimiter)) \<le> GLOBAL_LIMIT"
proof -
  have "within_limits (afterPasses passes newRateLimiter)"
    using within_limits_new by (rule within_limits_afterPasses)
  then show ?thesis
    by (simp add: within_limits_def)
qed

subsection \<open>The recorded timestamps\<close>


lemma cleanOldRequests_idem [simp]:
  "cleanOldRequests s (cleanOldRequests s xs) = cleanOldRequests s xs"
  by (simp add: cleanOldRequests_def)

lemma cleanOldRequests_append [simp]:
  "cleanOldRequests s (xs @ ys) = cleanOldRequests s xs @ cleanOldRequests s ys"
  by (simp add: cleanOldRequests_def)

lemma cleanOldRequests_now [simp]:
  "cleanOldRequests s [s] = [s]" "cleanOldRequests s [] = []"
  by (simp_all add: cleanOldRequests_def WINDOW_MS_def)




lemma recordedFor_simps [simp]:
  "recordedFor endpoint [] = []"
  "recordedFor endpoint (history @ history')
     = recordedFor endpoint history @ recordedFor endpoint history'"
  "recordedFor endpoint ((e, ts) # history)
     = (if e = endpoint then ts # recordedFor endpoint history
        else recordedFor endpoint history)"
  by (simp_all add: recordedFor_def)












section \<open>Git filter and content fetch\<close>

lemma matchesPatterns_iff:
  "matchesPatterns isMatch filePath incl excl \<longleftrightarrow>
     (patternsOf incl = [] \<or> (\<exists>p \<in> set (patternsOf incl). isMatch filePath p))
     \<and> (\<forall>p \<in> set (patternsOf excl). \<not> isMatch filePath p)"
  by (cases incl; cases excl)
     (auto simp: matchesPatterns_def patternsOf_def list_ex_iff Let_def)

text \<open>
  C7. With no include and no exclude patterns every path passes; in general a path passes
  exactly when it matches some include pattern (if there is any) and no exclude pattern; and
  \<open>src/a.ts\<close> with include \<open>src/**\<close> and exclude \<open>**/*.ts\<close> is excluded, the glob library matching
  \<open>src/a.ts\<close> against \<open>**/*.ts\<close>.
\<close>

theorem matchesPatterns_include_exclude:
  "matchesPatterns isMatch filePath None None
   \<and> matchesPatterns isMatch filePath (Some []) (Some [])
   \<and> (matchesPatterns isMatch filePath incl excl \<longleftrightarrow>
        (patternsOf incl = []
         \<or> (\<exists>p \<in> set (patternsOf incl). isMatch filePath p))
        \<and> (\<forall>p \<in> set (patternsOf excl). \<not> isMatch filePath p))
   \<and> (isMatch ''src/a.ts'' ''**/*.ts'' \<longrightarrow>
        \<not> matchesPatterns isMatch ''src/a.ts'' (Some [''src/**'']) (Some [''**/*.ts'']))"
proof -
  have "matchesPatterns isMatch filePath None None"
    and "matchesPatterns isMatch filePath (Some []) (Some [])"
    by (simp_all add: matchesPatterns_def)
  moreover have "isMatch ''src/a.ts'' ''**/*.ts'' \<longrightarrow>
        \<not> matchesPatterns isMatch ''src/a.ts'' (Some [''src/**'']) (Some [''**/*.ts''])"
    by (simp add: matchesPatterns_iff patternsOf_def)
  ultimately show ?thesis
    using matchesPatterns_iff [of isMatch filePath incl excl] by blast
qed

theorem matchesPatterns_include_exclude_witness:
  "wildcardMatch ''src/a.ts'' ''**/*.ts''
   \<and> \<not> matchesPatterns wildcardMatch ''src/a.ts'' (Some [''src/**'']) (Some [''**/*.ts''])
   \<and> matchesPatterns wildcardMatch ''src/a.ts'' None None"
proof -
  have h: "wildcardMatch ''src/a.ts'' ''**/*.ts''"
    by simp
  show ?thesis
    using h matchesPatterns_include_exclude
      [of wildcardMatch "''src/a.ts''" "Some [''src/**'']" "Some [''**/*.ts'']"]
    by blast
qed

lemma set_fetchContents:
  "f \<in> set (fetchContents fetchContent files) \<Longrightarrow>
     \<exists>t body. t \<in> set files \<and> fetchContent t = Ok body \<and> f = t\<lparr>content := Some body\<rparr>"
  by (induction files) (auto split: Response.splits)

lemma length_fetchContents: "length (fetchContents fetchContent files) \<le> length files"
  by (induction files) (auto split: Response.splits)

lemma set_filesToFetch:
  "t \<in> set (filesToFetch maxSize tree) \<Longrightarrow>
     t \<in> set tree \<and> type t = File \<and> real (case size t of None \<Rightarrow> 0 | Some n \<Rightarrow> n) \<le> maxSize"
  by (auto simp: filesToFetch_def dest: in_set_takeD)

lemma length_filesToFetch: "length (filesToFetch maxSize tree) \<le> 50"
  by (simp add: filesToFetch_def)

text \<open>
  C9 as stated fails when the caller's ceiling is 0: \<open>params.maxFileSize || 100000\<close> replaces it by
  the default, and a file of 5 bytes is fetched.
\<close>

theorem zero_ceiling_counterexample:
  "fetchGitHubRepo_files (exampleGitParams\<lparr>maxFileSize := Some 0\<rparr>)
     (fetchGitHubRepo_tree wildcardMatch (exampleGitParams\<lparr>maxFileSize := Some 0\<rparr>)
        (Ok [exampleReadme]))
     (\<lambda>f. Ok ''hello'')
   = [exampleReadme\<lparr>content := Some ''hello''\<rparr>]
   \<and> size exampleReadme = Some 5 \<and> \<not> real 5 \<le> 0"
  by (simp add: fetchGitHubRepo_files_def fetchGitHubRepo_tree_def exampleGitParams_def
      exampleReadme_def filterTree_def noPatterns_def orDefault_def filesToFetch_def
      textExtensions_def endsWith_def toLowerCase_def toLowerChar_def)

text \<open>
  C9, amended. Every entry of the returned file contents is an entry of the filtered tree
  with its body attached, is a file whose tree-reported size is at most the effective ceiling
  (the caller's \<open>maxFileSize\<close> when it is a non-zero number, 100000 otherwise), and at most 50
  entries are returned.
\<close>

theorem fetched_files_bounded:
  assumes "f \<in> set (fetchGitHubRepo_files params
                      (fetchGitHubRepo_tree isMatch params treeResponse) fetchContent)"
  shows "(\<exists>rawTree t body.
            treeResponse = Ok rawTree
            \<and> t \<in> set (filterTree isMatch rawTree (includePatterns params) (excludePatterns params))
            \<and> t \<in> set rawTree
            \<and> fetchContent t = Ok body \<and> f = t\<lparr>content := Some body\<rparr>
            \<and> type t = File
            \<and> real (case size t of None \<Rightarrow> 0 | Some n \<Rightarrow> n)
                 \<le> orDefault (maxFileSize params) 100000)
         \<and> length (fetchGitHubRepo_files params tree' fetchContent') \<le> 50"
proof -
  have len: "length (fetchGitHubRepo_files params tree' fetchContent') \<le> 50"
    using length_fetchContents [of fetchContent'] length_filesToFetch
    by (auto simp: fetchGitHubRepo_files_def Let_def split: option.splits intro: le_trans)
  from assms obtain ts where
    tree: "fetchGitHubRepo_tree isMatch params treeResponse = Some ts"
    and f: "f \<in> set (fetchContents fetchContent
                       (filesToFetch (orDefault (maxFileSize params) 100000) ts))"
    by (cases "fetchGitHubRepo_tree isMatch params treeResponse")
       (auto simp: fetchGitHubRepo_files_def Let_def split: if_splits)
  from tree obtain rawTree where
    raw: "treeResponse = Ok rawTree"
    and ts: "ts = filterTree isMatch rawTree (includePatterns params) (excludePatterns params)"
    by (auto simp: fetchGitHubRepo_tree_def split: if_splits Response.splits)
  from set_fetchContents [OF f] obtain t body where
    t: "t \<in> set (filesToFetch (orDefault (maxFileSize params) 100000) ts)"
    and body: "fetchContent t = Ok body" "f = t\<lparr>content := Some body\<rparr>"
    by blast
  from set_filesToFetch [OF t] have
    "t \<in> set ts" "type t = File"
    "real (case size t of None \<Rightarrow> 0 | Some n \<Rightarrow> n) \<le> orDefault (maxFileSize params) 100000"
    by simp_all
  moreover have "set ts \<subseteq> set rawTree"
    by (auto simp: ts filterTree_def)
  ultimately show ?thesis
    using raw ts body len by blast
qed

theorem fetched_files_bounded_witness:
  "exampleReadme\<lparr>content := Some ''hello''\<rparr>
     \<in> set (fetchGitHubRepo_files exampleGitParams
              (fetchGitHubRepo_tree wildcardMatch exampleGitParams
                 (Ok [exampleDirA, exampleReadme]))
              (\<lambda>f. Ok ''hello''))
   \<and> (\<exists>t body. t \<in> set [exampleDirA, exampleReadme]
         \<and> exampleReadme\<lparr>content := Some ''hello''\<rparr> = t\<lparr>content := Some body\<rparr>
         \<and> real (case size t of None \<Rightarrow> 0 | Some n \<Rightarrow> n) \<le> 100000)"
proof -
  have mem: "exampleReadme\<lparr>content := Some ''hello''\<rparr>
     \<in> set (fetchGitHubRepo_files exampleGitParams
              (fetchGitHubRepo_tree wildcardMatch exampleGitParams
                 (Ok [exampleDirA, exampleReadme]))
              (\<lambda>f. Ok ''hello''))"
    by (simp add: fetchGitHubRepo_files_def fetchGitHubRepo_tree_def exampleGitParams_def
        exampleReadme_def exampleDirA_def filterTree_def noPatterns_def orDefault_def
        filesToFetch_def textExtensions_def endsWith_def toLowerCase_def toLowerChar_def)
  have d: "orDefault (maxFileSize exampleGitParams) 100000 = 100000"
    by (simp add: orDefault_def exampleGitParams_def)
  show ?thesis
    using mem fetched_files_bounded [OF mem] unfolding d by blast
qed

section \<open>Tree rendering and the order of the entries\<close>

text \<open>
  The example of the specification: a directory \<open>a/\<close> and a file \<open>b.txt\<close> render the directory
  first, in either input order.
\<close>

lemma directory_renders_before_file:
  "formatHierarchicalTree localeCompare
     [\<lparr>path = ''b.txt'', name = ''b.txt'', type = File, size = None, sha = None, content = None\<rparr>,
      \<lparr>path = ''a/'', name = ''a/'', type = Dir, size = None, sha = None, content = None\<rparr>]
   = Inr (connectorMiddle @ ''a/'' @ newline @ connectorLast @ ''b.txt'' @ newline)"
  "formatHierarchicalTree localeCompare
     [\<lparr>path = ''a/'', name = ''a/'', type = Dir, size = None, sha = None, content = None\<rparr>,
      \<lparr>path = ''b.txt'', name = ''b.txt'', type = File, size = None, sha = None, content = None\<rparr>]
   = Inr (connectorMiddle @ ''a/'' @ newline @ connectorLast @ ''b.txt'' @ newline)"
  by (simp_all add: formatHierarchicalTree_def leafOf_def compareEntries_def)

text \<open>
  C8. The rendering depends on the order of the input: when the entry of a directory comes
  after the entry of a file inside it, the leaf assignment replaces the directory's node and the
  file is lost. The two orders of the same two entries render differently.
\<close>

theorem tree_rendering_depends_on_order:
  "formatHierarchicalTree localeCompare [exampleDirA, exampleFileAB]
     = Inr (connectorLast @ ''a/'' @ newline
            @ ''    '' @ connectorLast @ ''b.txt (12 bytes)'' @ newline)
   \<and> formatHierarchicalTree localeCompare [exampleFileAB, exampleDirA]
     = Inr (connectorLast @ ''a/'' @ newline)"
  by (simp add: formatHierarchicalTree_def exampleDirA_def exampleFileAB_def leafOf_def
      compareEntries_def showNat.simps)

section \<open>Pagination and parent resolution\<close>



lemma fetchCasts_loop_three_pages:
  assumes p1: "fetch None = Resolved \<lparr>casts = Some p1, next_cursor = Some c1\<rparr>" and c1: "c1 \<noteq> []"
    and p2: "fetch (Some c1) = Resolved \<lparr>casts = Some p2, next_cursor = Some c2\<rparr>" and c2: "c2 \<noteq> []"
    and p3: "fetch (Some c2) = Resolved \<lparr>casts = Some p3, next_cursor = None\<rparr>"
    and l1: "fetchAll \<or> real (length (keptCasts ir p1)) < lmt"
    and l2: "fetchAll \<or> real (length (keptCasts ir p1 @ keptCasts ir p2)) < lmt"
  shows "fetchCasts_loop fetch ir fetchAll lmt [] None
           = Some (Inr (keptCasts ir p1 @ keptCasts ir p2 @ keptCasts ir p3))"
proof -
  have s3: "fetchCasts_loop fetch ir fetchAll lmt (keptCasts ir p1 @ keptCasts ir p2) (Some c2)
      = Some (Inr (keptCasts ir p1 @ keptCasts ir p2 @ keptCasts ir p3))"
    by (subst fetchCasts_loop.simps) (simp add: p3 keptCasts_def truthyString_def)
  have s2: "fetchCasts_loop fetch ir fetchAll lmt (keptCasts ir p1) (Some c1)
      = fetchCasts_loop fetch ir fetchAll lmt (keptCasts ir p1 @ keptCasts ir p2) (Some c2)"
    using l2 c2 by (subst fetchCasts_loop.simps) (simp add: p2 keptCasts_def truthyString_def)
  have s1: "fetchCasts_loop fetch ir fetchAll lmt [] None
      = fetchCasts_loop fetch ir fetchAll lmt (keptCasts ir p1) (Some c1)"
    using l1 c1 by (subst fetchCasts_loop.simps) (simp add: p1 keptCasts_def truthyString_def)
  show ?thesis
    by (simp only: s1 s2 s3)
qed

lemma parentCast_transformCast [simp]: "parentCast (transformCast c) = None"
  by (simp add: transformCast_def)

lemma fetchCasts_loop_no_parent_aux:
  assumes "fetchCasts_loop fetch ir fetchAll lmt acc cur = Some y"
  shows "(\<forall>c \<in> set acc. parentCast c = None) \<longrightarrow>
         (\<forall>res. y = Inr res \<longrightarrow> (\<forall>c \<in> set res. parentCast c = None))"
proof (rule fetchCasts_loop.raw_induct
    [where P = "\<lambda>fetch ir fetchAll lmt acc cur y.
        (\<forall>c \<in> set acc. parentCast c = None) \<longrightarrow>
        (\<forall>res. y = Inr res \<longrightarrow> (\<forall>c \<in> set res. parentCast c = None))", OF _ assms])
  fix loop :: "(string option \<Rightarrow> CastsPage Outcome) \<Rightarrow> bool \<Rightarrow> bool \<Rightarrow> real
      \<Rightarrow> FarcasterCast list \<Rightarrow> string option \<Rightarrow> (FetchError + FarcasterCast list) option"
    and fetch :: "string option \<Rightarrow> CastsPage Outcome"
    and ir fetchAll :: bool and lmt :: real and acc :: "FarcasterCast list"
    and cur :: "string option" and y :: "FetchError + FarcasterCast list"
  assume IH: "\<And>fetch ir fetchAll lmt acc cur y.
      loop fetch ir fetchAll lmt acc cur = Some y \<Longrightarrow>
      (\<forall>c \<in> set acc. parentCast c = None) \<longrightarrow>
      (\<forall>res. y = Inr res \<longrightarrow> (\<forall>c \<in> set res. parentCast c = None))"
  assume body: "(case fetch cur of
        Rejected \<Rightarrow> Some (Inl UpstreamFailure)
      | Resolved res \<Rightarrow>
          (let filtered =
                 map transformCast
                   (filter (\<lambda>c. ir \<or> \<not> truthyString (raw_parent_hash c))
                      (case casts res of None \<Rightarrow> [] | Some cs \<Rightarrow> cs));
               allCasts' = acc @ filtered;
               cursor' = (if truthyString (next_cursor res) then next_cursor res else None)
           in if truthyString cursor' \<and> (fetchAll \<or> real (length allCasts') < lmt)
              then loop fetch ir fetchAll lmt allCasts' cursor'
              else Some (Inr allCasts'))) = Some y"
  show "(\<forall>c \<in> set acc. parentCast c = None) \<longrightarrow>
         (\<forall>res. y = Inr res \<longrightarrow> (\<forall>c \<in> set res. parentCast c = None))"
  proof (cases "fetch cur")
    case Rejected
    with body show ?thesis by auto
  next
    case (Resolved page)
    define acc' where "acc' = acc @ map transformCast
        (filter (\<lambda>c. ir \<or> \<not> truthyString (raw_parent_hash c))
           (case casts page of None \<Rightarrow> [] | Some cs \<Rightarrow> cs))"
    have keep: "(\<forall>c \<in> set acc. parentCast c = None) \<Longrightarrow> (\<forall>c \<in> set acc'. parentCast c = None)"
      by (auto simp: acc'_def)
    from body Resolved have
      "(\<exists>cur'. loop fetch ir fetchAll lmt acc' cur' = Some y) \<or> y = Inr acc'"
      by (auto simp: Let_def acc'_def split: if_splits)
    then show ?thesis
    proof
      assume "\<exists>cur'. loop fetch ir fetchAll lmt acc' cur' = Some y"
      then obtain cur' where "loop fetch ir fetchAll lmt acc' cur' = Some y" ..
      from IH [OF this] keep show ?thesis by blast
    next
      assume "y = Inr acc'"
      with keep show ?thesis by blast
    qed
  qed
qed

lemma fetchCasts_loop_no_parent:
  assumes "fetchCasts_loop fetch ir fetchAll lmt [] None = Some (Inr res)"
  shows "\<forall>c \<in> set res. parentCast c = None"
  using fetchCasts_loop_no_parent_aux [OF assms] by simp


lemma set_dedup [simp]: "set (dedup xs) = set xs"
  by (induction xs) auto

lemma distinct_dedup [simp]: "distinct (dedup xs)"
  by (induction xs) auto

lemma dedup_filter: "dedup (filter P xs) = filter P (dedup xs)"
proof (induction xs)
  case Nil
  then show ?case by simp
next
  case (Cons x xs)
  have "filter (\<lambda>y. y \<noteq> x) (filter P (dedup xs)) = filter P (filter (\<lambda>y. y \<noteq> x) (dedup xs))"
    by (simp add: conj_commute)
  moreover have "\<not> P x \<Longrightarrow> filter P (filter (\<lambda>y. y \<noteq> x) (dedup xs)) = filter P (dedup xs)"
    by (auto intro: filter_cong)
  ultimately show ?case
    using Cons.IH by simp
qed

lemma length_filter_remove1:
  "distinct xs \<Longrightarrow> x \<in> set xs \<Longrightarrow> length (filter (\<lambda>y. y \<noteq> x) xs) = length xs - 1"
proof (induction xs)
  case Nil
  then show ?case by simp
next
  case (Cons a xs)
  show ?case
  proof (cases "a = x")
    case True
    with Cons.prems have "filter (\<lambda>y. y \<noteq> x) xs = xs"
      by (auto intro: filter_True)
    with True show ?thesis by simp
  next
    case False
    with Cons have "length (filter (\<lambda>y. y \<noteq> x) xs) = length xs - 1" and "xs \<noteq> []"
      by auto
    with False show ?thesis by (cases xs) auto
  qed
qed

lemma fst_lookupParent [simp]: "fst (lookupParent l h) = h"
  by (simp add: lookupParent_def split: Outcome.splits option.splits)

lemma proto_is_inherited: "''__proto__'' \<in> set objectPrototypeKeys"
  by (simp add: objectPrototypeKeys_def)

lemma storeResults_append:
  "storeResults (xs @ ys) m = storeResults ys (storeResults xs m)"
proof (induction xs arbitrary: m)
  case Nil
  then show ?case by simp
next
  case (Cons x xs)
  then show ?case by (cases x) simp
qed

lemma storeResults_own:
  "ownProperties (storeResults (map (lookupParent l) hs) m) h =
     (if h \<in> set hs \<and> h \<noteq> ''__proto__''
      then (case snd (lookupParent l h) of None \<Rightarrow> ownProperties m h | Some p \<Rightarrow> Some p)
      else ownProperties m h)"
proof (induction hs arbitrary: m)
  case Nil
  then show ?case by simp
next
  case (Cons x xs)
  obtain found where lp: "lookupParent l x = (x, found)"
    by (cases "lookupParent l x") (use fst_lookupParent [of l x] in auto)
  show ?case
    using Cons.IH [of "case found of None \<Rightarrow> m | Some c \<Rightarrow> assignProperty m x c"] lp
    by (auto simp: assignProperty_def split: option.splits)
qed

lemma storeResults_prototype:
  "replacedPrototype (storeResults (map (lookupParent l) hs) m) =
     (if ''__proto__'' \<in> set hs
      then (case snd (lookupParent l ''__proto__'') of
              None \<Rightarrow> replacedPrototype m
            | Some p \<Rightarrow> Some p)
      else replacedPrototype m)"
proof (induction hs arbitrary: m)
  case Nil
  then show ?case by simp
next
  case (Cons x xs)
  obtain found where lp: "lookupParent l x = (x, found)"
    by (cases "lookupParent l x") (use fst_lookupParent [of l x] in auto)
  show ?case
    using Cons.IH [of "case found of None \<Rightarrow> m | Some c \<Rightarrow> assignProperty m x c"] lp
    by (auto simp: assignProperty_def split: option.splits)
qed

text \<open>The batches store what one pass over all the hashes stores.\<close>

lemma lookupBatches_store:
  "lookupBatches l hs m = storeResults (map (lookupParent l) hs) m"
proof (induction l hs m rule: lookupBatches.induct)
  case (1 l hs m)
  show ?case
  proof (cases "hs = []")
    case True
    then show ?thesis by (simp add: lookupBatches.simps)
  next
    case False
    have "lookupBatches l hs m =
        lookupBatches l (drop batchSize hs)
          (storeResults (map (lookupParent l) (take batchSize hs)) m)"
      using False by (subst lookupBatches.simps) (simp add: Let_def)
    also have "\<dots> = storeResults (map (lookupParent l) (drop batchSize hs))
          (storeResults (map (lookupParent l) (take batchSize hs)) m)"
      by (rule "1.IH" [OF False refl refl])
    also have "\<dots> = storeResults (map (lookupParent l) (take batchSize hs @ drop batchSize hs)) m"
      unfolding map_append storeResults_append ..
    finally show ?thesis by simp
  qed
qed

text \<open>The map depends on the set of the hashes, not on their order.\<close>

lemma lookupBatches_set:
  assumes "set hs = set hs'"
  shows "lookupBatches l hs m = lookupBatches l hs' m"
proof (rule PlainObject.equality)
  show "ownProperties (lookupBatches l hs m) = ownProperties (lookupBatches l hs' m)"
    using assms by (simp add: fun_eq_iff lookupBatches_store storeResults_own)
  show "replacedPrototype (lookupBatches l hs m) = replacedPrototype (lookupBatches l hs' m)"
    using assms by (simp add: lookupBatches_store storeResults_prototype)
qed simp

lemma mem_parentHashesOf:
  "c \<in> set cs \<Longrightarrow> parentHash c = Some h \<Longrightarrow> h \<noteq> [] \<Longrightarrow> h \<in> set (parentHashesOf cs)"
  by (force simp: parentHashesOf_def truthyString_def)

lemma set_parentHashesOf_rev: "set (parentHashesOf (rev cs)) = set (parentHashesOf cs)"
  by (simp add: parentHashesOf_def rev_map [symmetric] rev_filter [symmetric])

lemma resolveParents_rev: "resolveParents l (rev cs) = rev (resolveParents l cs)"
  using lookupBatches_set [OF set_parentHashesOf_rev, of l cs emptyObject]
  by (simp add: resolveParents_def Let_def rev_map)

lemma length_resolveParents [simp]: "length (resolveParents l cs) = length cs"
  by (simp add: resolveParents_def Let_def)

text \<open>
  Reading a key that is no property of \<open>Object.prototype\<close>, when \<open>__proto__\<close> was not among
  the hashes looked up, gives the cast found for it.
\<close>

lemma readProperty_parentMap:
  assumes "''__proto__'' \<notin> set hs" and "h \<notin> set objectPrototypeKeys"
  shows "readProperty castFields (lookupBatches l hs emptyObject) h
           = (if h \<in> set hs then map_option Stored (snd (lookupParent l h)) else None)"
proof -
  have "h \<noteq> ''__proto__''"
    using assms(2) proto_is_inherited by blast
  then show ?thesis
    using assms
    by (simp add: readProperty_def lookupBatches_store storeResults_own storeResults_prototype
        emptyObject_def split: option.splits)
qed

lemma parentHash_attachParent [simp]: "parentHash (attachParent M c) = parentHash c"
  by (simp add: attachParent_def setParentCast_def split: option.splits)

lemma parentCast_attachParent:
  "parentCast (attachParent M c) =
     (case parentHash c of
        None \<Rightarrow> parentCast c
      | Some h \<Rightarrow> if h = [] then parentCast c
                  else (case readProperty castFields M h of
                          None \<Rightarrow> parentCast c
                        | Some p \<Rightarrow> Some p))"
  by (simp add: attachParent_def setParentCast_def split: option.splits)

lemma truthyString_simps [simp]:
  "truthyString None = False" "truthyString (Some h) = (h \<noteq> [])"
  by (simp_all add: truthyString_def)

lemma attached_refs:
  assumes "\<forall>c \<in> set cs. parentCast c = None"
    and "\<forall>c \<in> set cs. \<forall>h. parentHash c = Some h \<longrightarrow> h \<noteq> [] \<longrightarrow>
           (readProperty castFields M h \<noteq> None \<longleftrightarrow> h \<noteq> failed)"
  shows "map the (filter truthyString
           (map parentHash (filter (\<lambda>c. parentCast c \<noteq> None) (map (attachParent M) cs))))
         = filter (\<lambda>h. h \<noteq> failed) (map the (filter truthyString (map parentHash cs)))"
  using assms
proof (induction cs)
  case Nil
  then show ?case by simp
next
  case (Cons c cs)
  have IH: "map the (filter truthyString
           (map parentHash (filter (\<lambda>c. parentCast c \<noteq> None) (map (attachParent M) cs))))
         = filter (\<lambda>h. h \<noteq> failed) (map the (filter truthyString (map parentHash cs)))"
    using Cons by simp
  have c: "parentCast c = None"
    and f: "\<And>h. parentHash c = Some h \<Longrightarrow> h \<noteq> [] \<Longrightarrow>
              (readProperty castFields M h \<noteq> None \<longleftrightarrow> h \<noteq> failed)"
    using Cons.prems by simp_all
  show ?case
  proof (cases "parentHash c")
    case None
    then show ?thesis
      using IH c by (simp add: parentCast_attachParent)
  next
    case (Some h)
    show ?thesis
    proof (cases "h = []")
      case True
      with Some show ?thesis
        using IH c by (simp add: parentCast_attachParent)
    next
      case False
      with Some f [OF Some False] show ?thesis
        using IH c by (auto simp: parentCast_attachParent split: option.splits)
    qed
  qed
qed

text \<open>
  C6 as stated fails for a parent hash that names a property of \<open>Object.prototype\<close>. Of the
  two parent hashes \<open>p1\<close> and \<open>constructor\<close> the lookup of \<open>constructor\<close> fails and the other
  succeeds; \<open>parentMap["constructor"]\<close> is then the inherited property, and both casts get a
  parent.
\<close>

theorem failed_lookup_of_inherited_key_is_attached:
  "fetchCasts constructorPage parentLookup repliesParams
     = Some (Inr
         [setParentCast (transformCast (exampleRaw 11 (Some ''p1'')))
            (Stored (transformCast (exampleRaw 100 None))),
          setParentCast (transformCast (exampleRaw 12 (Some ''constructor'')))
            (Inherited None ''constructor'')])
   \<and> parentHashesOf (map transformCast
         [exampleRaw 11 (Some ''p1''), exampleRaw 12 (Some ''constructor'')])
       = [''p1'', ''constructor'']
   \<and> parentLookup ''p1'' = Resolved (Some (exampleRaw 100 None))
   \<and> parentLookup ''constructor'' = Rejected
   \<and> attachedParents
         [setParentCast (transformCast (exampleRaw 11 (Some ''p1'')))
            (Stored (transformCast (exampleRaw 100 None))),
          setParentCast (transformCast (exampleRaw 12 (Some ''constructor'')))
            (Inherited None ''constructor'')]
       = [''p1'', ''constructor'']"
proof -
  let ?cs = "map transformCast
         [exampleRaw 11 (Some ''p1''), exampleRaw 12 (Some ''constructor'')]"
  have loop: "fetchCasts_loop constructorPage True False 50 [] None = Some (Inr ?cs)"
    by (subst fetchCasts_loop.simps) (simp add: constructorPage_def)
  have hs: "parentHashesOf ?cs = [''p1'', ''constructor'']"
    by (simp add: parentHashesOf_def transformCast_def exampleRaw_def)
  have found: "snd (lookupParent parentLookup ''p1'') = Some (transformCast (exampleRaw 100 None))"
    and failed: "snd (lookupParent parentLookup ''constructor'') = None"
    by (simp_all add: lookupParent_def parentLookup_def)
  define M where "M = lookupBatches parentLookup [''p1'', ''constructor''] emptyObject"
  have own: "ownProperties M h =
      (if h \<in> set [''p1'', ''constructor''] \<and> h \<noteq> ''__proto__''
       then (case snd (lookupParent parentLookup h) of None \<Rightarrow> None | Some p \<Rightarrow> Some p)
       else None)" for h
    unfolding M_def lookupBatches_store storeResults_own
    by (simp add: emptyObject_def split: option.splits)
  have proto: "replacedPrototype M = None"
    unfolding M_def lookupBatches_store storeResults_prototype by (simp add: emptyObject_def)
  have p1: "readProperty castFields M ''p1'' = Some (Stored (transformCast (exampleRaw 100 None)))"
    by (simp add: readProperty_def own found)
  have con: "readProperty castFields M ''constructor'' = Some (Inherited None ''constructor'')"
    by (simp add: readProperty_def own proto failed objectPrototypeKeys_def)
  have "attachParent M (transformCast (exampleRaw 11 (Some ''p1'')))
      = setParentCast (transformCast (exampleRaw 11 (Some ''p1'')))
          (Stored (transformCast (exampleRaw 100 None)))"
    and "attachParent M (transformCast (exampleRaw 12 (Some ''constructor'')))
      = setParentCast (transformCast (exampleRaw 12 (Some ''constructor'')))
          (Inherited None ''constructor'')"
    by (simp_all add: attachParent_def p1 con transformCast_def exampleRaw_def)
  then have res: "resolveParents parentLookup ?cs =
      [setParentCast (transformCast (exampleRaw 11 (Some ''p1'')))
         (Stored (transformCast (exampleRaw 100 None))),
       setParentCast (transformCast (exampleRaw 12 (Some ''constructor'')))
         (Inherited None ''constructor'')]"
    unfolding resolveParents_def Let_def hs M_def [symmetric] by simp
  have 1: "fetchCasts constructorPage parentLookup repliesParams
      = Some (Inr (slice0 (resolveParents parentLookup ?cs) 50))"
    using loop by (simp add: fetchCasts_def repliesParams_def orDefault_def Let_def)
  have 2: "slice0 (resolveParents parentLookup ?cs) 50 = resolveParents parentLookup ?cs"
    by (simp add: slice0_def)
  have 3: "attachedParents (resolveParents parentLookup ?cs) = [''p1'', ''constructor'']"
    unfolding res
    by (simp add: attachedParents_def setParentCast_def transformCast_def exampleRaw_def)
  show ?thesis
    using 1 2 3 hs unfolding res by (simp add: parentLookup_def)
qed

text \<open>
  C6, amended. When the listing has succeeded, no parent hash of the fetched casts is the name
  of a property of \<open>Object.prototype\<close>, and exactly one of the \<open>M\<close> distinct parent hashes fails
  to be looked up while every other lookup finds its cast, then \<open>fetchCasts\<close> still returns
  its casts; the parents attached are the \<open>M - 1\<close> other hashes; and each cast referring to one
  of them carries the cast found for it, every other cast being unchanged.
\<close>

theorem one_failed_parent_lookup_is_skipped:
  fixes params :: FarcasterQueryParams
  defines "fetched \<equiv> (\<lambda>allCasts. if sortOrder params = Some Oldest then rev allCasts else allCasts)"
  assumes listing: "fetchCasts_loop fetchCastsForUser (includeReplies params) (all params)
                      (orDefault (limit params) 50) [] None = Some (Inr allCasts)"
    and parents: "includeParents params"
    and plain: "\<forall>h \<in> set (parentHashesOf (fetched allCasts)). h \<notin> set objectPrototypeKeys"
    and failed_in: "failed \<in> set (parentHashesOf (fetched allCasts))"
    and failed: "lookupCastByHashOrUrl failed = Rejected"
    and others: "\<forall>h \<in> set (parentHashesOf (fetched allCasts)). h \<noteq> failed \<longrightarrow>
                   (\<exists>c. lookupCastByHashOrUrl h = Resolved (Some c))"
  shows "fetchCasts fetchCastsForUser lookupCastByHashOrUrl params =
           Some (Inr (if all params then resolveParents lookupCastByHashOrUrl (fetched allCasts)
                      else slice0 (resolveParents lookupCastByHashOrUrl (fetched allCasts))
                             (orDefault (limit params) 50)))
         \<and> attachedParents (resolveParents lookupCastByHashOrUrl (fetched allCasts))
             = filter (\<lambda>h. h \<noteq> failed) (parentHashesOf (fetched allCasts))
         \<and> length (attachedParents (resolveParents lookupCastByHashOrUrl (fetched allCasts)))
             = length (parentHashesOf (fetched allCasts)) - 1
         \<and> resolveParents lookupCastByHashOrUrl (fetched allCasts)
             = map (\<lambda>c. case parentHash c of
                          None \<Rightarrow> c
                        | Some h \<Rightarrow>
                            if h = [] \<or> h = failed then c
                            else (case lookupCastByHashOrUrl h of
                                    Resolved (Some p) \<Rightarrow>
                                      setParentCast c (Stored (transformCast p))
                                  | _ \<Rightarrow> c))
                 (fetched allCasts)"
proof -
  let ?l = lookupCastByHashOrUrl
  let ?cs = "fetched allCasts"
  let ?F = "\<lambda>h. snd (lookupParent ?l h)"
  define M where "M = lookupBatches ?l (parentHashesOf ?cs) emptyObject"
  have np: "\<forall>c \<in> set ?cs. parentCast c = None"
    using fetchCasts_loop_no_parent [OF listing] by (simp add: fetched_def)
  have Ffailed: "?F failed = None"
    by (simp add: lookupParent_def failed)
  have Fother: "?F h \<noteq> None" if "h \<in> set (parentHashesOf ?cs)" "h \<noteq> failed" for h
    using others that by (auto simp: lookupParent_def)
  have no_proto: "''__proto__'' \<notin> set (parentHashesOf ?cs)"
    using plain proto_is_inherited by blast
  have read: "readProperty castFields M h = map_option Stored (?F h)"
    if "h \<in> set (parentHashesOf ?cs)" for h
    unfolding M_def using readProperty_parentMap [OF no_proto, of h ?l] plain that by simp
  have iff: "\<forall>c \<in> set ?cs. \<forall>h. parentHash c = Some h \<longrightarrow> h \<noteq> [] \<longrightarrow>
      (readProperty castFields M h \<noteq> None \<longleftrightarrow> h \<noteq> failed)"
  proof (intro ballI allI impI)
    fix c h
    assume "c \<in> set ?cs" "parentHash c = Some h" "h \<noteq> []"
    then have "h \<in> set (parentHashesOf ?cs)"
      by (rule mem_parentHashesOf)
    then show "readProperty castFields M h \<noteq> None \<longleftrightarrow> h \<noteq> failed"
      using read [of h] Ffailed Fother [of h] by auto
  qed
  have res: "resolveParents ?l ?cs = map (attachParent M) ?cs"
    by (simp add: resolveParents_def Let_def M_def)
  have 1: "fetchCasts fetchCastsForUser ?l params =
           Some (Inr (if all params then resolveParents ?l ?cs
                      else slice0 (resolveParents ?l ?cs) (orDefault (limit params) 50)))"
    using listing parents by (simp add: fetchCasts_def Let_def fetched_def split: option.splits)
  have 2: "attachedParents (resolveParents ?l ?cs)
             = filter (\<lambda>h. h \<noteq> failed) (parentHashesOf ?cs)"
    unfolding attachedParents_def parentHashesOf_def res
      attached_refs [OF np iff] dedup_filter ..
  have 3: "length (attachedParents (resolveParents ?l ?cs)) = length (parentHashesOf ?cs) - 1"
    unfolding 2 using failed_in
    by (intro length_filter_remove1) (simp_all add: parentHashesOf_def)
  have 4: "attachParent M c =
      (case parentHash c of
         None \<Rightarrow> c
       | Some h \<Rightarrow>
           if h = [] \<or> h = failed then c
           else (case ?l h of
                   Resolved (Some p) \<Rightarrow> setParentCast c (Stored (transformCast p))
                 | _ \<Rightarrow> c))"
    if c: "c \<in> set ?cs" for c
  proof (cases "parentHash c")
    case None
    then show ?thesis by (simp add: attachParent_def)
  next
    case (Some h)
    show ?thesis
    proof (cases "h = []")
      case True
      with Some show ?thesis by (simp add: attachParent_def)
    next
      case False
      have "h \<in> set (parentHashesOf ?cs)"
        using c Some False by (rule mem_parentHashesOf)
      then have "readProperty castFields M h = map_option Stored (?F h)"
        by (rule read)
      with Some False Ffailed show ?thesis
        by (auto simp: attachParent_def lookupParent_def split: option.splits Outcome.splits)
    qed
  qed
  have "resolveParents ?l ?cs
      = map (\<lambda>c. case parentHash c of
                          None \<Rightarrow> c
                        | Some h \<Rightarrow>
                            if h = [] \<or> h = failed then c
                            else (case ?l h of
                                    Resolved (Some p) \<Rightarrow>
                                      setParentCast c (Stored (transformCast p))
                                  | _ \<Rightarrow> c)) ?cs"
    unfolding res by (rule map_cong [OF refl]) (rule 4)
  with 1 2 3 show ?thesis
    by simp
qed

theorem one_failed_parent_lookup_is_skipped_witness:
  "fetchCasts_loop repliesPage True False 50 [] None
     = Some (Inr (map transformCast
         [exampleRaw 11 (Some ''p1''), exampleRaw 12 (Some ''p2''), exampleRaw 13 None,
          exampleRaw 14 (Some ''p1'')]))
   \<and> parentHashesOf (map transformCast
         [exampleRaw 11 (Some ''p1''), exampleRaw 12 (Some ''p2''), exampleRaw 13 None,
          exampleRaw 14 (Some ''p1'')]) = [''p1'', ''p2'']
   \<and> ''p1'' \<notin> set objectPrototypeKeys \<and> ''p2'' \<notin> set objectPrototypeKeys
   \<and> parentLookup ''p2'' = Rejected
   \<and> parentLookup ''p1'' = Resolved (Some (exampleRaw 100 None))
   \<and> attachedParents (resolveParents parentLookup (map transformCast
         [exampleRaw 11 (Some ''p1''), exampleRaw 12 (Some ''p2''), exampleRaw 13 None,
          exampleRaw 14 (Some ''p1'')])) = [''p1'']
   \<and> (\<exists>result. fetchCasts repliesPage parentLookup repliesParams = Some (Inr result))"
proof -
  let ?cs = "map transformCast
         [exampleRaw 11 (Some ''p1''), exampleRaw 12 (Some ''p2''), exampleRaw 13 None,
          exampleRaw 14 (Some ''p1'')]"
  have loop: "fetchCasts_loop repliesPage True False 50 [] None = Some (Inr ?cs)"
    by (subst fetchCasts_loop.simps) (simp add: repliesPage_def)
  have hs: "parentHashesOf ?cs = [''p1'', ''p2'']"
    by (simp add: parentHashesOf_def transformCast_def exampleRaw_def)
  have listing: "fetchCasts_loop repliesPage (includeReplies repliesParams) (all repliesParams)
      (orDefault (limit repliesParams) 50) [] None = Some (Inr ?cs)"
    using loop by (simp add: repliesParams_def orDefault_def)
  have parents: "includeParents repliesParams"
    by (simp add: repliesParams_def)
  have so: "sortOrder repliesParams = None"
    by (simp add: repliesParams_def)
  have failed: "parentLookup ''p2'' = Rejected" and found: "parentLookup ''p1'' = Resolved (Some (exampleRaw 100 None))"
    by (simp_all add: parentLookup_def)
  have keys: "''p1'' \<notin> set objectPrototypeKeys" "''p2'' \<notin> set objectPrototypeKeys"
    by (simp_all add: objectPrototypeKeys_def)
  have e: "(if sortOrder repliesParams = Some Oldest then rev ?cs else ?cs) = ?cs"
    by (simp add: so)
  have plain: "\<forall>h \<in> set (parentHashesOf
      (if sortOrder repliesParams = Some Oldest then rev ?cs else ?cs)).
        h \<notin> set objectPrototypeKeys"
    unfolding e hs using keys by simp
  have failed_in: "''p2'' \<in> set (parentHashesOf
      (if sortOrder repliesParams = Some Oldest then rev ?cs else ?cs))"
    unfolding e hs by simp
  have others: "\<forall>h \<in> set (parentHashesOf
      (if sortOrder repliesParams = Some Oldest then rev ?cs else ?cs)).
        h \<noteq> ''p2'' \<longrightarrow> (\<exists>c. parentLookup h = Resolved (Some c))"
    unfolding e hs by (simp add: found)
  note inst = one_failed_parent_lookup_is_skipped
    [OF listing parents plain failed_in failed others]
  have att: "attachedParents (resolveParents parentLookup ?cs) = [''p1'']"
    using inst [THEN conjunct2, THEN conjunct1] by (simp only: e hs) simp
  show ?thesis
    using loop hs keys failed found att inst [THEN conjunct1] by blast
qed

section \<open>Pagination with a limit and a sort order\<close>

lemma slice0_120 [simp]: "slice0 xs 120 = take 120 xs"
  by (simp add: slice0_def)

lemma keptCasts_all:
  "ir \<or> (\<forall>c \<in> set p. \<not> truthyString (raw_parent_hash c)) \<Longrightarrow> keptCasts ir p = map transformCast p"
  by (auto simp: keptCasts_def intro: filter_True)

lemma fetchCasts_three_pages:
  fixes params :: FarcasterQueryParams
  defines "ordered \<equiv> (\<lambda>cs. if sortOrder params = Some Oldest then rev cs else cs)"
  assumes p1: "fetch None = Resolved \<lparr>casts = Some p1, next_cursor = Some c1\<rparr>" and c1: "c1 \<noteq> []"
    and p2: "fetch (Some c1) = Resolved \<lparr>casts = Some p2, next_cursor = Some c2\<rparr>" and c2: "c2 \<noteq> []"
    and p3: "fetch (Some c2) = Resolved \<lparr>casts = Some p3, next_cursor = None\<rparr>"
    and len: "length p1 = 50" "length p2 = 50" "length p3 = 50"
    and keep: "includeReplies params
               \<or> (\<forall>c \<in> set (p1 @ p2 @ p3). \<not> truthyString (raw_parent_hash c))"
    and lim: "limit params = Some 120" and nall: "\<not> all params"
  shows "fetchCasts fetch l params =
           Some (Inr (take 120
             (if includeParents params
              then resolveParents l (ordered (map transformCast (p1 @ p2 @ p3)))
              else ordered (map transformCast (p1 @ p2 @ p3)))))"
proof -
  define fetched where "fetched = map transformCast (p1 @ p2 @ p3)"
  have k: "keptCasts (includeReplies params) p1 = map transformCast p1"
    "keptCasts (includeReplies params) p2 = map transformCast p2"
    "keptCasts (includeReplies params) p3 = map transformCast p3"
    using keep by (auto intro!: keptCasts_all)
  have "fetchCasts_loop fetch (includeReplies params) False 120 [] None
      = Some (Inr (keptCasts (includeReplies params) p1 @ keptCasts (includeReplies params) p2
                   @ keptCasts (includeReplies params) p3))"
    by (rule fetchCasts_loop_three_pages [OF p1 c1 p2 c2 p3]) (simp_all add: k len)
  then have loop: "fetchCasts_loop fetch (includeReplies params) False 120 [] None
      = Some (Inr fetched)"
    by (simp add: k fetched_def)
  have o: "(if (case sortOrder params of None \<Rightarrow> Newest | Some so \<Rightarrow> so) = Oldest
            then rev fetched else fetched) = ordered fetched"
    by (cases "sortOrder params") (auto simp: ordered_def)
  have "fetchCasts fetch l params =
           Some (Inr (take 120
             (if includeParents params then resolveParents l (ordered fetched)
              else ordered fetched)))"
    using lim nall by (simp add: fetchCasts_def orDefault_def Let_def loop o)
  then show ?thesis
    by (simp only: fetched_def)
qed

text \<open>The same for the Bluesky adapter.\<close>

lemma fetchBskyPosts_loop_three_pages:
  assumes p1: "getFeed None = Resolved \<lparr>feed = f1, cursor = Some d1\<rparr>" and d1: "d1 \<noteq> []"
    and p2: "getFeed (Some d1) = Resolved \<lparr>feed = f2, cursor = Some d2\<rparr>" and d2: "d2 \<noteq> []"
    and p3: "getFeed (Some d2) = Resolved \<lparr>feed = f3, cursor = None\<rparr>"
    and keep: "\<forall>item \<in> set (f1 @ f2 @ f3). \<not> reason item"
    and l1: "fetchAll \<or> real (length f1) < lmt"
    and l2: "fetchAll \<or> real (length f1 + length f2) < lmt"
  shows "fetchBskyPosts_loop getFeed fetchAll lmt [] None
           = Some (Inr (map (\<lambda>item. transformBskyPost (post item)) (f1 @ f2 @ f3)))"
proof -
  let ?T = "map (\<lambda>item. transformBskyPost (post item))"
  have k: "filter (\<lambda>item. \<not> reason item) f1 = f1" "filter (\<lambda>item. \<not> reason item) f2 = f2"
    "filter (\<lambda>item. \<not> reason item) f3 = f3"
    using keep by (auto intro: filter_True)
  have s3: "fetchBskyPosts_loop getFeed fetchAll lmt (?T f1 @ ?T f2) (Some d2)
      = Some (Inr (?T (f1 @ f2 @ f3)))"
    by (subst fetchBskyPosts_loop.simps) (simp add: p3 k)
  have s2: "fetchBskyPosts_loop getFeed fetchAll lmt (?T f1) (Some d1)
      = fetchBskyPosts_loop getFeed fetchAll lmt (?T f1 @ ?T f2) (Some d2)"
    using l2 d2 by (subst fetchBskyPosts_loop.simps) (simp add: p2 k)
  have s1: "fetchBskyPosts_loop getFeed fetchAll lmt [] None
      = fetchBskyPosts_loop getFeed fetchAll lmt (?T f1) (Some d1)"
    using l1 d1 by (subst fetchBskyPosts_loop.simps) (simp add: p1 k)
  show ?thesis
    by (simp only: s1 s2 s3)
qed

lemma fst_lookupParentPost [simp]: "fst (lookupParentPost l u) = u"
  by (simp add: lookupParentPost_def split: Outcome.splits option.splits)

lemma storePostResults_append:
  "storePostResults (xs @ ys) m = storePostResults ys (storePostResults xs m)"
proof (induction xs arbitrary: m)
  case Nil
  then show ?case by simp
next
  case (Cons x xs)
  then show ?case by (cases x) simp
qed

lemma storePostResults_own:
  "ownProperties (storePostResults (map (lookupParentPost l) us) m) u =
     (if u \<in> set us \<and> u \<noteq> ''__proto__''
      then (case snd (lookupParentPost l u) of None \<Rightarrow> ownProperties m u | Some p \<Rightarrow> Some p)
      else ownProperties m u)"
proof (induction us arbitrary: m)
  case Nil
  then show ?case by simp
next
  case (Cons x xs)
  obtain found where lp: "lookupParentPost l x = (x, found)"
    by (cases "lookupParentPost l x") (use fst_lookupParentPost [of l x] in auto)
  show ?case
    using Cons.IH [of "case found of None \<Rightarrow> m | Some c \<Rightarrow> assignProperty m x c"] lp
    by (auto simp: assignProperty_def split: option.splits)
qed

lemma storePostResults_prototype:
  "replacedPrototype (storePostResults (map (lookupParentPost l) us) m) =
     (if ''__proto__'' \<in> set us
      then (case snd (lookupParentPost l ''__proto__'') of
              None \<Rightarrow> replacedPrototype m
            | Some p \<Rightarrow> Some p)
      else replacedPrototype m)"
proof (induction us arbitrary: m)
  case Nil
  then show ?case by simp
next
  case (Cons x xs)
  obtain found where lp: "lookupParentPost l x = (x, found)"
    by (cases "lookupParentPost l x") (use fst_lookupParentPost [of l x] in auto)
  show ?case
    using Cons.IH [of "case found of None \<Rightarrow> m | Some c \<Rightarrow> assignProperty m x c"] lp
    by (auto simp: assignProperty_def split: option.splits)
qed

lemma lookupPostBatches_store:
  "lookupPostBatches l us m = storePostResults (map (lookupParentPost l) us) m"
proof (induction l us m rule: lookupPostBatches.induct)
  case (1 l us m)
  show ?case
  proof (cases "us = []")
    case True
    then show ?thesis by (simp add: lookupPostBatches.simps)
  next
    case False
    have "lookupPostBatches l us m =
        lookupPostBatches l (drop batchSize us)
          (storePostResults (map (lookupParentPost l) (take batchSize us)) m)"
      using False by (subst lookupPostBatches.simps) (simp add: Let_def)
    also have "\<dots> = storePostResults (map (lookupParentPost l) (drop batchSize us))
          (storePostResults (map (lookupParentPost l) (take batchSize us)) m)"
      by (rule "1.IH" [OF False refl refl])
    also have "\<dots> = storePostResults
          (map (lookupParentPost l) (take batchSize us @ drop batchSize us)) m"
      unfolding map_append storePostResults_append ..
    finally show ?thesis by simp
  qed
qed

lemma lookupPostBatches_set:
  assumes "set us = set us'"
  shows "lookupPostBatches l us m = lookupPostBatches l us' m"
proof (rule PlainObject.equality)
  show "ownProperties (lookupPostBatches l us m) = ownProperties (lookupPostBatches l us' m)"
    using assms by (simp add: fun_eq_iff lookupPostBatches_store storePostResults_own)
  show "replacedPrototype (lookupPostBatches l us m)
      = replacedPrototype (lookupPostBatches l us' m)"
    using assms by (simp add: lookupPostBatches_store storePostResults_prototype)
qed simp

lemma set_parentUrisOf_rev: "set (parentUrisOf (rev ps)) = set (parentUrisOf ps)"
  by (simp add: parentUrisOf_def rev_map [symmetric] rev_filter [symmetric])

lemma resolveParentPosts_rev: "resolveParentPosts l (rev ps) = rev (resolveParentPosts l ps)"
  using lookupPostBatches_set [OF set_parentUrisOf_rev, of l ps emptyObject]
  by (simp add: resolveParentPosts_def Let_def rev_map)

lemma length_resolveParentPosts [simp]: "length (resolveParentPosts l ps) = length ps"
  by (simp add: resolveParentPosts_def Let_def)

lemma fetchBskyPosts_three_pages:
  fixes params :: BlueskyQueryParams
  defines "ordered \<equiv> (\<lambda>ps. if sortOrder params = Some Oldest then rev ps else ps)"
  assumes p1: "getFeed (includeReplies params) None = Resolved \<lparr>feed = f1, cursor = Some d1\<rparr>"
    and d1: "d1 \<noteq> []"
    and p2: "getFeed (includeReplies params) (Some d1) = Resolved \<lparr>feed = f2, cursor = Some d2\<rparr>"
    and d2: "d2 \<noteq> []"
    and p3: "getFeed (includeReplies params) (Some d2) = Resolved \<lparr>feed = f3, cursor = None\<rparr>"
    and len: "length f1 = 50" "length f2 = 50" "length f3 = 50"
    and keep: "\<forall>item \<in> set (f1 @ f2 @ f3). \<not> reason item"
    and lim: "limit params = Some 120" and nall: "\<not> all params"
  shows "fetchBskyPosts getFeed l params =
           Some (Inr (take 120
             (if includeParents params
              then resolveParentPosts l
                     (ordered (map (\<lambda>item. transformBskyPost (post item)) (f1 @ f2 @ f3)))
              else ordered (map (\<lambda>item. transformBskyPost (post item)) (f1 @ f2 @ f3)))))"
proof -
  define fetched where "fetched = map (\<lambda>item. transformBskyPost (post item)) (f1 @ f2 @ f3)"
  have loop: "fetchBskyPosts_loop (getFeed (includeReplies params)) False 120 [] None
      = Some (Inr fetched)"
    unfolding fetched_def
    by (rule fetchBskyPosts_loop_three_pages [OF p1 d1 p2 d2 p3 keep]) (simp_all add: len)
  have o: "(if (case sortOrder params of None \<Rightarrow> Newest | Some so \<Rightarrow> so) = Oldest
            then rev fetched else fetched) = ordered fetched"
    by (cases "sortOrder params") (auto simp: ordered_def)
  have "fetchBskyPosts getFeed l params =
           Some (Inr (take 120
             (if includeParents params then resolveParentPosts l (ordered fetched)
              else ordered fetched)))"
    using lim nall by (simp add: fetchBskyPosts_def orDefault_def Let_def loop o)
  then show ?thesis
    by (simp only: fetched_def)
qed

text \<open>The example upstreams.\<close>

lemma threePages_facts:
  "threePages None = Resolved \<lparr>casts = Some (map (\<lambda>n. exampleRaw n None) [0..<50]),
                                 next_cursor = Some ''c1''\<rparr>"
  "threePages (Some ''c1'') = Resolved \<lparr>casts = Some (map (\<lambda>n. exampleRaw n None) [50..<100]),
                                        next_cursor = Some ''c2''\<rparr>"
  "threePages (Some ''c2'') = Resolved \<lparr>casts = Some (map (\<lambda>n. exampleRaw n None) [100..<150]),
                                        next_cursor = None\<rparr>"
  by (simp_all add: threePages_def del: upt_rec_numeral)

lemma threePages_lengths:
  "length (map (\<lambda>n. exampleRaw n None) [0..<50]) = 50"
  "length (map (\<lambda>n. exampleRaw n None) [50..<100]) = 50"
  "length (map (\<lambda>n. exampleRaw n None) [100..<150]) = 50"
  by (simp_all del: upt_rec_numeral)

lemma exampleRaw_no_reply:
  "\<forall>c \<in> set (map (\<lambda>n. exampleRaw n None) ns). \<not> truthyString (raw_parent_hash c)"
  by (simp add: exampleRaw_def)

lemma threePages_no_replies:
  "\<forall>c \<in> set (map (\<lambda>n. exampleRaw n None) [0..<50] @ map (\<lambda>n. exampleRaw n None) [50..<100]
              @ map (\<lambda>n. exampleRaw n None) [100..<150]). \<not> truthyString (raw_parent_hash c)"
  unfolding set_append ball_Un
  by (intro conjI exampleRaw_no_reply)

lemma exampleFetched_upt:
  "exampleFetched = map (\<lambda>n. transformCast (exampleRaw n None)) [0..<150]"
proof -
  have "[0..<150] = [0..<50] @ [50..<100] @ [100..<150]"
    using upt_add_eq_append [of 0 50 100] upt_add_eq_append [of 50 50 50] by simp
  then show ?thesis
    by (simp add: exampleFetched_def)
qed

lemma exampleFetched_differs: "drop 30 exampleFetched \<noteq> take 120 exampleFetched"
proof
  assume "drop 30 exampleFetched = take 120 exampleFetched"
  then have "hash (hd (drop 30 exampleFetched)) = hash (hd (take 120 exampleFetched))"
    by simp
  moreover have "hd (drop 30 exampleFetched) = transformCast (exampleRaw 30 None)"
    by (simp add: exampleFetched_upt hd_drop_conv_nth)
  moreover have "hd (take 120 exampleFetched) = transformCast (exampleRaw 0 None)"
    by (simp add: exampleFetched_upt hd_conv_nth)
  ultimately show False
    by (simp add: transformCast_def exampleRaw_def showNat.simps)
qed

lemma threeBskyPages_facts:
  "threeBskyPages w None = Resolved \<lparr>feed = map exampleBskyItem [0..<50], cursor = Some ''c1''\<rparr>"
  "threeBskyPages w (Some ''c1'')
     = Resolved \<lparr>feed = map exampleBskyItem [50..<100], cursor = Some ''c2''\<rparr>"
  "threeBskyPages w (Some ''c2'')
     = Resolved \<lparr>feed = map exampleBskyItem [100..<150], cursor = None\<rparr>"
  by (simp_all add: threeBskyPages_def del: upt_rec_numeral)

lemma threeBskyPages_lengths:
  "length (map exampleBskyItem [0..<50]) = 50"
  "length (map exampleBskyItem [50..<100]) = 50"
  "length (map exampleBskyItem [100..<150]) = 50"
  by (simp_all del: upt_rec_numeral)

lemma exampleBskyItem_no_reason: "\<forall>item \<in> set (map exampleBskyItem ns). \<not> reason item"
  by (simp add: exampleBskyItem_def)

lemma threeBskyPages_no_reposts:
  "\<forall>item \<in> set (map exampleBskyItem [0..<50] @ map exampleBskyItem [50..<100]
                 @ map exampleBskyItem [100..<150]). \<not> reason item"
  unfolding set_append ball_Un
  by (intro conjI exampleBskyItem_no_reason)

text \<open>
  C1, amended. When the upstream yields three pages of 50 items, none of them filtered out,
  and then no cursor, a request with limit 120 fetches all 150 items, in \<open>fetchCasts\<close> and in
  \<open>fetchBskyPosts\<close> alike. With sort order \<open>newest\<close> it returns the first 120 of them, newest
  first. With sort order \<open>oldest\<close> the 150 items are reversed before the limit is applied, so it
  returns the 120 oldest of the 150, oldest first: the 30 newest are dropped, not the 30
  oldest. Parents are attached to the items when they are requested.
\<close>

theorem pagination_three_pages:
  fixes params :: FarcasterQueryParams and bparams :: BlueskyQueryParams
  defines "attach \<equiv> (\<lambda>l cs. if includeParents params then resolveParents l cs else cs)"
    and "battach \<equiv> (\<lambda>l ps. if includeParents bparams then resolveParentPosts l ps else ps)"
  assumes p1: "fetch None = Resolved \<lparr>casts = Some p1, next_cursor = Some c1\<rparr>" and c1: "c1 \<noteq> []"
    and p2: "fetch (Some c1) = Resolved \<lparr>casts = Some p2, next_cursor = Some c2\<rparr>" and c2: "c2 \<noteq> []"
    and p3: "fetch (Some c2) = Resolved \<lparr>casts = Some p3, next_cursor = None\<rparr>"
    and len: "length p1 = 50" "length p2 = 50" "length p3 = 50"
    and keep: "includeReplies params
               \<or> (\<forall>c \<in> set (p1 @ p2 @ p3). \<not> truthyString (raw_parent_hash c))"
    and lim: "limit params = Some 120" and nall: "\<not> all params"
    and b1: "getFeed (includeReplies bparams) None = Resolved \<lparr>feed = f1, cursor = Some d1\<rparr>"
    and d1: "d1 \<noteq> []"
    and b2: "getFeed (includeReplies bparams) (Some d1) = Resolved \<lparr>feed = f2, cursor = Some d2\<rparr>"
    and d2: "d2 \<noteq> []"
    and b3: "getFeed (includeReplies bparams) (Some d2) = Resolved \<lparr>feed = f3, cursor = None\<rparr>"
    and blen: "length f1 = 50" "length f2 = 50" "length f3 = 50"
    and bkeep: "\<forall>item \<in> set (f1 @ f2 @ f3). \<not> reason item"
    and blim: "limit bparams = Some 120" and bnall: "\<not> all bparams"
  shows "fetchCasts fetch l (params\<lparr>sortOrder := Some Newest\<rparr>)
           = Some (Inr (take 120 (attach l (map transformCast (p1 @ p2 @ p3)))))
         \<and> fetchCasts fetch l (params\<lparr>sortOrder := Some Oldest\<rparr>)
           = Some (Inr (rev (drop 30 (attach l (map transformCast (p1 @ p2 @ p3))))))
         \<and> length (attach l (map transformCast (p1 @ p2 @ p3))) = 150
         \<and> fetchBskyPosts getFeed t (bparams\<lparr>sortOrder := Some Newest\<rparr>)
           = Some (Inr (take 120
               (battach t (map (\<lambda>item. transformBskyPost (post item)) (f1 @ f2 @ f3)))))
         \<and> fetchBskyPosts getFeed t (bparams\<lparr>sortOrder := Some Oldest\<rparr>)
           = Some (Inr (rev (drop 30
               (battach t (map (\<lambda>item. transformBskyPost (post item)) (f1 @ f2 @ f3))))))
         \<and> length (battach t (map (\<lambda>item. transformBskyPost (post item)) (f1 @ f2 @ f3))) = 150"
proof -
  define fetched where "fetched = map transformCast (p1 @ p2 @ p3)"
  have n: "length (attach l fetched) = 150"
    by (simp add: attach_def fetched_def len)
  have rv: "attach l (rev fetched) = rev (attach l fetched)"
    by (simp add: attach_def resolveParents_rev)
  have tr: "take 120 (rev (attach l fetched)) = rev (drop 30 (attach l fetched))"
    using n by (simp add: take_rev)
  have newest: "fetchCasts fetch l (params\<lparr>sortOrder := Some Newest\<rparr>)
      = Some (Inr (take 120 (attach l fetched)))"
    using fetchCasts_three_pages
      [OF p1 c1 p2 c2 p3 len, of "params\<lparr>sortOrder := Some Newest\<rparr>" l] keep lim nall
    by (simp add: attach_def fetched_def)
  have "fetchCasts fetch l (params\<lparr>sortOrder := Some Oldest\<rparr>)
      = Some (Inr (take 120 (attach l (rev fetched))))"
    using fetchCasts_three_pages
      [OF p1 c1 p2 c2 p3 len, of "params\<lparr>sortOrder := Some Oldest\<rparr>" l] keep lim nall
    by (simp add: attach_def fetched_def)
  then have oldest: "fetchCasts fetch l (params\<lparr>sortOrder := Some Oldest\<rparr>)
      = Some (Inr (rev (drop 30 (attach l fetched))))"
    by (simp only: rv tr)
  define posts where "posts = map (\<lambda>item. transformBskyPost (post item)) (f1 @ f2 @ f3)"
  have bn: "length (battach t posts) = 150"
    by (simp add: battach_def posts_def blen)
  have brv: "battach t (rev posts) = rev (battach t posts)"
    by (simp add: battach_def resolveParentPosts_rev)
  have btr: "take 120 (rev (battach t posts)) = rev (drop 30 (battach t posts))"
    using bn by (simp add: take_rev)
  have bnewest: "fetchBskyPosts getFeed t (bparams\<lparr>sortOrder := Some Newest\<rparr>)
      = Some (Inr (take 120 (battach t posts)))"
    using fetchBskyPosts_three_pages
      [of getFeed "bparams\<lparr>sortOrder := Some Newest\<rparr>" f1 d1 f2 d2 f3 t]
      b1 d1 b2 d2 b3 blen bkeep blim bnall
    by (simp add: battach_def posts_def)
  have "fetchBskyPosts getFeed t (bparams\<lparr>sortOrder := Some Oldest\<rparr>)
      = Some (Inr (take 120 (battach t (rev posts))))"
    using fetchBskyPosts_three_pages
      [of getFeed "bparams\<lparr>sortOrder := Some Oldest\<rparr>" f1 d1 f2 d2 f3 t]
      b1 d1 b2 d2 b3 blen bkeep blim bnall
    by (simp add: battach_def posts_def)
  then have boldest: "fetchBskyPosts getFeed t (bparams\<lparr>sortOrder := Some Oldest\<rparr>)
      = Some (Inr (rev (drop 30 (battach t posts))))"
    by (simp only: brv btr)
  show ?thesis
    using newest oldest n bnewest boldest bn
    by (simp only: fetched_def posts_def simp_thms)
qed

theorem pagination_three_pages_witness:
  "fetchCasts threePages parentLookup (exampleParams None\<lparr>sortOrder := Some Newest\<rparr>)
     = Some (Inr (take 120 exampleFetched))
   \<and> fetchCasts threePages parentLookup (exampleParams None\<lparr>sortOrder := Some Oldest\<rparr>)
     = Some (Inr (rev (drop 30 exampleFetched)))
   \<and> length exampleFetched = 150
   \<and> fetchBskyPosts threeBskyPages noThread (exampleParams None\<lparr>sortOrder := Some Newest\<rparr>)
     = Some (Inr (take 120 exampleBskyFetched))
   \<and> fetchBskyPosts threeBskyPages noThread (exampleParams None\<lparr>sortOrder := Some Oldest\<rparr>)
     = Some (Inr (rev (drop 30 exampleBskyFetched)))
   \<and> length exampleBskyFetched = 150"
proof -
  have keep: "includeReplies (exampleParams None)
      \<or> (\<forall>c \<in> set (map (\<lambda>n. exampleRaw n None) [0..<50] @ map (\<lambda>n. exampleRaw n None) [50..<100]
              @ map (\<lambda>n. exampleRaw n None) [100..<150]). \<not> truthyString (raw_parent_hash c))"
    using threePages_no_replies by blast
  have pr: "limit (exampleParams None) = Some 120" "\<not> all (exampleParams None)"
    by (simp_all add: exampleParams_def)
  have np: "\<not> includeParents (exampleParams None)"
    by (simp add: exampleParams_def)
  have c: "''c1'' \<noteq> []" "''c2'' \<noteq> []"
    by simp_all
  show ?thesis
    using pagination_three_pages
      [where getFeed = threeBskyPages and bparams = "exampleParams None"
         and l = parentLookup and t = noThread,
       OF threePages_facts(1) c(1) threePages_facts(2) c(2)
        threePages_facts(3) threePages_lengths keep pr
        threeBskyPages_facts(1) c(1) threeBskyPages_facts(2) c(2) threeBskyPages_facts(3)
        threeBskyPages_lengths threeBskyPages_no_reposts pr]
    by (simp only: np if_False exampleFetched_def exampleBskyFetched_def)
qed

text \<open>
  C1 as stated fails: on the three pages of \<open>threePages\<close> and limit 120, the casts returned for
  \<open>oldest\<close> are not the casts returned for \<open>newest\<close> in reverse order.
\<close>

theorem oldest_is_not_newest_reversed:
  "fetchCasts threePages parentLookup (exampleParams (Some Newest))
     = Some (Inr (take 120 exampleFetched))
   \<and> fetchCasts threePages parentLookup (exampleParams (Some Oldest))
     = Some (Inr (rev (drop 30 exampleFetched)))
   \<and> length (take 120 exampleFetched) = 120
   \<and> rev (drop 30 exampleFetched) \<noteq> rev (take 120 exampleFetched)"
proof -
  have len: "length exampleFetched = 150"
    by (simp add: exampleFetched_upt)
  have keep: "includeReplies (exampleParams so)
      \<or> (\<forall>c \<in> set (map (\<lambda>n. exampleRaw n None) [0..<50] @ map (\<lambda>n. exampleRaw n None) [50..<100]
              @ map (\<lambda>n. exampleRaw n None) [100..<150]). \<not> truthyString (raw_parent_hash c))" for so
    using threePages_no_replies by blast
  have pr: "limit (exampleParams so) = Some 120" "\<not> all (exampleParams so)"
    "\<not> includeParents (exampleParams so)" "sortOrder (exampleParams so) = so" for so
    by (simp_all add: exampleParams_def)
  have res: "fetchCasts threePages parentLookup (exampleParams so)
      = Some (Inr (take 120 (if so = Some Oldest then rev exampleFetched else exampleFetched)))"
    for so
    using fetchCasts_three_pages [OF threePages_facts(1) _ threePages_facts(2) _
        threePages_facts(3) threePages_lengths keep [of so] pr(1,2) [of so],
        where l = parentLookup]
    by (simp add: pr exampleFetched_def)
  have "take 120 (rev exampleFetched) = rev (drop 30 exampleFetched)"
    using len by (simp add: take_rev)
  then show ?thesis
    using res [of "Some Newest"] res [of "Some Oldest"] exampleFetched_differs len
    by simp
qed

section \<open>The estimate and the gate\<close>

text \<open>
  When the count is in the cache, or the upstream call answers with a count, the two paths
  pass the same arguments to the price function and give the same string.
\<close>

lemma estimate_and_gate_agree:
  assumes "\<not> isFreeTier params"
    and "all params \<longrightarrow> truthyNumber userFid
           \<and> (cached \<noteq> None \<or> (\<exists>n. storage = Resolved (Some n)))"
  shows "gate_price rnd ns params userFid cached storage basePrice
           = Some (estimate_price rnd ns params cached storage basePrice)"
  using assms
  by (auto simp: gate_price_def estimate_price_def gate_castCount_def estimate_castCount_def
      split: option.splits Outcome.splits)

text \<open>
  C2. The two paths do not always price a request alike. For a request for all casts of user 3,
  with nothing in the cache, a base price of 0.001 and a storage lookup that is rejected, the
  estimate is computed from a cast count of 0 and the gate from \<open>null\<close>, which stands for
  7500 casts: the estimate renders 0.005 and the gate 0.055.
\<close>

theorem estimate_and_gate_differ_on_failed_lookup:
  "estimate_price (\<lambda>x. x) numberToString allCastsParams None Rejected (1 / 1000)
     = ''$'' @ numberToString (5 / 1000)
   \<and> gate_price (\<lambda>x. x) numberToString allCastsParams (Some 3) None Rejected (1 / 1000)
     = Some (''$'' @ numberToString (55 / 1000))"
  by (simp add: estimate_price_def gate_price_def estimate_castCount_def gate_castCount_def
      calculateDynamicPriceWithCastCount_def calculateDynamicPriceWithCastCount_rounded_def
      isFreeTier_def allCastsParams_def orDefault_def truthyNumber_def PRICING_def Math_ceil_def
      Math_round_def FREE_TIER_def)

end
